theory Spec2Isabelle
  imports Complex_Main
begin

section \<open>The tri-stage learning rate scheduler of \<^verbatim>\<open>scheduler.py\<close>\<close>

text \<open>
  The development embeds \<^verbatim>\<open>LearningRateScheduler\<close> and \<^verbatim>\<open>TriStageLRScheduler\<close>.
  Python integers are \<^typ>\<open>int\<close>. Python floats are read twice. In the exact reading a
  float is a real number and the arithmetic of a rate is exact: it says which expression a
  call evaluates and what state it leaves. In the binary64 reading a float is a double of
  IEEE-754, every operation rounds, and \<^verbatim>\<open>math.exp\<close> raises when its result is out of
  range: it says which double a call returns and whether the arithmetic raises. The record
  types take the type of floats as a parameter, so that the stage decision and the methods
  of the base class are the same in both. Every \<^verbatim>\<open>raise\<close> and every failing
  \<^verbatim>\<open>assert\<close> of the source is a result \<open>Inl e\<close>.
\<close>

subsection \<open>Errors\<close>

datatype error =
    AssertionError
  | ZeroDivisionError
  | ValueError
  | AttributeError
  | KeyError
  | OverflowError

subsection \<open>The optimizer\<close>

text \<open>
  The scheduler touches one thing of the optimizer: the list \<^verbatim>\<open>param_groups\<close> of
  dictionaries, of which it writes and reads the entry \<^verbatim>\<open>'lr'\<close>. A parameter group is a
  dictionary from option names to floats.
\<close>

type_synonym 'f param_group = "string \<rightharpoonup> 'f"

record 'f optimizer =
  param_groups :: "'f param_group list"

type_synonym tensor = "real list"

subsection \<open>The scheduler object\<close>

text \<open>
  The attributes of a \<^verbatim>\<open>TriStageLRScheduler\<close>. The attribute \<^verbatim>\<open>_last_lr\<close> is the field
  \<open>last_lr\<close>; it is \<open>None\<close> as long as the attribute has not been assigned.
\<close>

record 'f scheduler =
  optimizer :: "'f optimizer"
  lr :: 'f
  peak_lr :: 'f
  init_lr :: 'f
  final_lr :: 'f
  warmup_steps :: int
  hold_steps :: int
  decay_steps :: int
  warmup_rate :: 'f
  decay_factor :: 'f
  update_steps :: int
  last_lr :: "'f list option"

text \<open>
  The arguments of \<^verbatim>\<open>TriStageLRScheduler.__init__\<close> other than the optimizer. An argument
  whose default is \<^verbatim>\<open>None\<close> is an option.
\<close>

record args =
  arg_peak_lr :: real
  arg_init_lr_scale :: "real option"
  arg_init_lr :: real
  arg_final_lr_scale :: "real option"
  arg_final_lr :: real
  arg_phase_ratio :: "(real \<times> real \<times> real) option"
  arg_warmup_steps :: int
  arg_hold_steps :: int
  arg_decay_steps :: int
  arg_total_steps :: int

text \<open>The defaults of the signature; \<^verbatim>\<open>peak_lr\<close> has none.\<close>

definition default_args :: "real \<Rightarrow> args" where
  "default_args peak =
     \<lparr> arg_peak_lr = peak,
       arg_init_lr_scale = None,
       arg_init_lr = 0,
       arg_final_lr_scale = None,
       arg_final_lr = 0,
       arg_phase_ratio = None,
       arg_warmup_steps = 0,
       arg_hold_steps = 0,
       arg_decay_steps = 0,
       arg_total_steps = 0 \<rparr>"

subsection \<open>\<^verbatim>\<open>LearningRateScheduler\<close>\<close>

text \<open>\<^verbatim>\<open>set_lr\<close>: the loop \<^verbatim>\<open>for g in optimizer.param_groups: g['lr'] = lr\<close>.\<close>

definition set_lr :: "'f optimizer \<Rightarrow> 'f \<Rightarrow> 'f optimizer" where
  "set_lr opt r = opt\<lparr>param_groups := map (\<lambda>g. g(''lr'' \<mapsto> r)) (param_groups opt)\<rparr>"

text \<open>
  \<^verbatim>\<open>get_lr\<close> returns from inside the loop at the first group. With no group the loop
  body never runs and the method returns \<^verbatim>\<open>None\<close>; a first group without the key
  \<^verbatim>\<open>'lr'\<close> raises.
\<close>

definition get_lr :: "'f scheduler \<Rightarrow> error + 'f option" where
  "get_lr s =
     (case param_groups (optimizer s) of
        [] \<Rightarrow> Inr None
      | g # _ \<Rightarrow> (case g ''lr'' of None \<Rightarrow> Inl KeyError | Some v \<Rightarrow> Inr (Some v)))"

text \<open>\<^verbatim>\<open>get_last_lr\<close> reads the attribute \<^verbatim>\<open>_last_lr\<close>, which may not exist yet.\<close>

definition get_last_lr :: "'f scheduler \<Rightarrow> error + 'f list" where
  "get_last_lr s = (case last_lr s of None \<Rightarrow> Inl AttributeError | Some rs \<Rightarrow> Inr rs)"

subsection \<open>\<^verbatim>\<open>TriStageLRScheduler.__init__\<close>\<close>

text \<open>Python's \<^verbatim>\<open>int(x)\<close> on a float truncates towards zero.\<close>

definition py_int :: "real \<Rightarrow> int" where
  "py_int x = (if 0 \<le> x then \<lfloor>x\<rfloor> else \<lceil>x\<rceil>)"

text \<open>
  The constructor, in the order of the source. The two \<^verbatim>\<open>isinstance\<close> assertions hold
  by the types of \<open>arg_warmup_steps\<close> and \<open>arg_total_steps\<close>. The division
  \<^verbatim>\<open>final_lr / peak_lr\<close> raises on a zero divisor, \<^verbatim>\<open>math.log\<close> raises
  \<^verbatim>\<open>ValueError\<close> on an argument that is not positive, and it is evaluated before the
  division by \<^verbatim>\<open>decay_steps\<close>, which raises on zero. This is the exact reading: no
  quotient, product or sum rounds, underflows or overflows. The constructor over doubles
  is \<open>init64\<close> below.
\<close>

definition init :: "real optimizer \<Rightarrow> args \<Rightarrow> error + real scheduler" where
  "init opt a =
     (let peak = arg_peak_lr a in
      if (case arg_init_lr_scale a of None \<Rightarrow> False | Some sc \<Rightarrow> \<not> 0 < sc)
      then Inl AssertionError
      else
      let init_lr' = (case arg_init_lr_scale a of
                        None \<Rightarrow> arg_init_lr a
                      | Some sc \<Rightarrow> sc * peak) in
      if (case arg_final_lr_scale a of None \<Rightarrow> False | Some sc \<Rightarrow> \<not> 0 < sc)
      then Inl AssertionError
      else if arg_final_lr_scale a = None \<and> peak = 0
      then Inl ZeroDivisionError
      else
      let final_lr' = (case arg_final_lr_scale a of
                         None \<Rightarrow> arg_final_lr a
                       | Some sc \<Rightarrow> sc * peak);
          final_lr_scale = (case arg_final_lr_scale a of
                              None \<Rightarrow> arg_final_lr a / peak
                            | Some sc \<Rightarrow> sc) in
      if arg_phase_ratio a \<noteq> None \<and> \<not> 0 < arg_total_steps a
      then Inl AssertionError
      else if (case arg_phase_ratio a of
                 None \<Rightarrow> False
               | Some (r0, r1, r2) \<Rightarrow> 0 + r0 + r1 + r2 \<noteq> 1)
      then Inl AssertionError
      else
      let w = (case arg_phase_ratio a of
                 None \<Rightarrow> arg_warmup_steps a
               | Some (r0, r1, r2) \<Rightarrow> py_int (real_of_int (arg_total_steps a) * r0));
          h = (case arg_phase_ratio a of
                 None \<Rightarrow> arg_hold_steps a
               | Some (r0, r1, r2) \<Rightarrow> py_int (real_of_int (arg_total_steps a) * r1));
          d = (case arg_phase_ratio a of
                 None \<Rightarrow> arg_decay_steps a
               | Some (r0, r1, r2) \<Rightarrow> py_int (real_of_int (arg_total_steps a) * r2)) in
      if \<not> 0 < w + h + d
      then Inl AssertionError
      else
      let wr = (if w \<noteq> 0 then (peak - init_lr') / real_of_int w else 0) in
      if \<not> 0 < final_lr_scale
      then Inl ValueError
      else if d = 0
      then Inl ZeroDivisionError
      else
        Inr \<lparr> optimizer = opt,
              lr = init_lr',
              peak_lr = peak,
              init_lr = init_lr',
              final_lr = final_lr',
              warmup_steps = w,
              hold_steps = h,
              decay_steps = d,
              warmup_rate = wr,
              decay_factor = - ln final_lr_scale / real_of_int d,
              update_steps = 0,
              last_lr = None \<rparr>)"

subsection \<open>\<^verbatim>\<open>_decide_stage\<close>\<close>

text \<open>The stage tags are the integers the source returns.\<close>

abbreviation (input) WARMUP :: int where "WARMUP \<equiv> 0"
abbreviation (input) HOLD :: int where "HOLD \<equiv> 1"
abbreviation (input) DECAY :: int where "DECAY \<equiv> 2"
abbreviation (input) FINAL :: int where "FINAL \<equiv> 3"

definition decide_stage :: "'f scheduler \<Rightarrow> int \<times> int" where
  "decide_stage s =
     (if update_steps s < warmup_steps s then (0, update_steps s)
      else
      let offset = warmup_steps s in
      if update_steps s < offset + hold_steps s then (1, update_steps s - offset)
      else
      let offset = offset + hold_steps s in
      if update_steps s \<le> offset + decay_steps s then (2, update_steps s - offset)
      else
      let offset = offset + decay_steps s in
      (3, update_steps s - offset))"

subsection \<open>\<^verbatim>\<open>step\<close>\<close>

text \<open>
  The chain \<^verbatim>\<open>if stage == 0 ... elif ... else: raise ValueError\<close>, in the exact
  reading: the exponential of a real number is a real number, so no branch but the last
  raises. The raise of \<^verbatim>\<open>math.exp\<close> on a result out of range is in \<open>stage_lr64\<close> below.
\<close>

definition stage_lr :: "real scheduler \<Rightarrow> int \<Rightarrow> int \<Rightarrow> error + real" where
  "stage_lr s stage steps_in_stage =
     (if stage = 0 then Inr (init_lr s + warmup_rate s * real_of_int steps_in_stage)
      else if stage = 1 then Inr (peak_lr s)
      else if stage = 2
        then Inr (peak_lr s * exp (- decay_factor s * real_of_int steps_in_stage))
      else if stage = 3 then Inr (final_lr s)
      else Inl ValueError)"

text \<open>
  The comprehension \<^verbatim>\<open>[group['lr'] for group in self.optimizer.param_groups]\<close>; a group
  without the key raises.
\<close>

fun read_lrs :: "'f param_group list \<Rightarrow> error + 'f list" where
  "read_lrs [] = Inr []"
| "read_lrs (g # gs) =
     (case g ''lr'' of
        None \<Rightarrow> Inl KeyError
      | Some v \<Rightarrow> (case read_lrs gs of Inl e \<Rightarrow> Inl e | Inr vs \<Rightarrow> Inr (v # vs)))"

text \<open>
  \<^verbatim>\<open>step\<close> mutates the object and returns the rate; here it returns the object after
  the call together with the rate. \<^verbatim>\<open>val_loss\<close> is an argument as in the source, where
  the body never mentions it. The \<^verbatim>\<open>raise\<close> of the last branch comes before any
  assignment.
\<close>

definition step :: "tensor option \<Rightarrow> real scheduler \<Rightarrow> error + real scheduler \<times> real" where
  "step val_loss s =
     (case decide_stage s of
        (stage, steps_in_stage) \<Rightarrow>
          (case stage_lr s stage steps_in_stage of
             Inl e \<Rightarrow> Inl e
           | Inr r \<Rightarrow>
               let s1 = s\<lparr>lr := r\<rparr>;
                   s2 = s1\<lparr>optimizer := set_lr (optimizer s1) (lr s1)\<rparr>;
                   s3 = s2\<lparr>update_steps := update_steps s2 + 1\<rparr>
               in (case read_lrs (param_groups (optimizer s3)) of
                     Inl e \<Rightarrow> Inl e
                   | Inr rs \<Rightarrow> Inr (s3\<lparr>last_lr := Some rs\<rparr>, lr s3))))"

subsection \<open>The training loop\<close>

text \<open>
  \<open>run n s\<close> calls \<^verbatim>\<open>step()\<close> \<open>n\<close> times in a row, without a loss, and collects the
  rates returned, the first call first. It stops at the first call that raises.
\<close>

fun run :: "nat \<Rightarrow> real scheduler \<Rightarrow> error + real scheduler \<times> real list" where
  "run 0 s = Inr (s, [])"
| "run (Suc n) s =
     (case step None s of
        Inl e \<Rightarrow> Inl e
      | Inr (s', r) \<Rightarrow>
          (case run n s' of
             Inl e \<Rightarrow> Inl e
           | Inr (s'', rs) \<Rightarrow> Inr (s'', r # rs)))"

text \<open>Construction followed by \<open>n\<close> calls: the rates returned.\<close>

definition rates :: "real optimizer \<Rightarrow> args \<Rightarrow> nat \<Rightarrow> error + real list" where
  "rates opt a n =
     (case init opt a of
        Inl e \<Rightarrow> Inl e
      | Inr s \<Rightarrow> (case run n s of Inl e \<Rightarrow> Inl e | Inr (s', rs) \<Rightarrow> Inr rs))"

subsection \<open>A running example\<close>

text \<open>
  The configuration \<^verbatim>\<open>peak_lr=1e-3, init_lr=0, final_lr=1e-5, warmup_steps=2,
  hold_steps=1, decay_steps=2\<close>, an optimizer with two parameter groups, and the object
  the constructor builds from them.
\<close>

definition example_args :: args where
  "example_args =
     (default_args (1 / 1000))
       \<lparr> arg_final_lr := 1 / 100000,
         arg_warmup_steps := 2,
         arg_hold_steps := 1,
         arg_decay_steps := 2 \<rparr>"

definition example_optimizer :: "real optimizer" where
  "example_optimizer =
     \<lparr> param_groups = [[''lr'' \<mapsto> 1 / 10], [''lr'' \<mapsto> 1 / 20, ''momentum'' \<mapsto> 9 / 10]] \<rparr>"

definition example_scheduler :: "real scheduler" where
  "example_scheduler =
     \<lparr> optimizer = example_optimizer,
       lr = 0,
       peak_lr = 1 / 1000,
       init_lr = 0,
       final_lr = 1 / 100000,
       warmup_steps = 2,
       hold_steps = 1,
       decay_steps = 2,
       warmup_rate = 1 / 2000,
       decay_factor = - ln (1 / 100) / 2,
       update_steps = 0,
       last_lr = None \<rparr>"

text \<open>The example object with its step counter moved to \<open>k\<close>.\<close>

definition example_at :: "int \<Rightarrow> real scheduler" where
  "example_at k = example_scheduler\<lparr>update_steps := k\<rparr>"

text \<open>The example object after the call made at step counter 2, in the hold stage.\<close>

definition example_stepped :: "real scheduler" where
  "example_stepped =
     (example_at 2)
       \<lparr> lr := 1 / 1000,
         optimizer := set_lr example_optimizer (1 / 1000),
         update_steps := 3,
         last_lr := Some [1 / 1000, 1 / 1000] \<rparr>"

section \<open>The binary64 reading\<close>

text \<open>
  Where a claim depends on what the floating-point arithmetic returns, the methods are read
  a second time over the doubles of IEEE-754. A double is a real number of the binary64
  grid, an infinity or a NaN. The two zeros are one value here: Python compares them equal,
  and no operation of the scheduler tells them apart (a division by either raises,
  \<^verbatim>\<open>math.log\<close> of either raises, and neither is \<^verbatim>\<open>> 0\<close>).
\<close>

datatype pyfloat = Fin real | PInf | NInf | NaN

text \<open>\<^verbatim>\<open>sys.float_info.max\<close>, the largest double.\<close>

definition max_float :: real where
  "max_float = 2 ^ 1024 - 2 ^ 971"

text \<open>The integer nearest to \<open>y\<close>, the even one of the two when \<open>y\<close> lies half way.\<close>

definition round_even :: "real \<Rightarrow> int" where
  "round_even y =
     (let f = \<lfloor>y\<rfloor>; d = y - of_int f
      in if d < 1 / 2 then f else if 1 / 2 < d then f + 1 else if even f then f else f + 1)"

text \<open>
  Rounding to nearest, ties to even: a real \<open>x\<close> with binary exponent \<open>e\<close> is rounded to a
  multiple of \<open>2 powr (e - 52)\<close>; below \<open>2 powr - 1022\<close> the spacing stays that of the
  subnormal numbers; a result above the largest double is an infinity.
\<close>

definition rnd :: "real \<Rightarrow> pyfloat" where
  "rnd x =
     (if x = 0 then Fin 0
      else
        let e = max (- 1022) \<lfloor>log 2 \<bar>x\<bar>\<rfloor>;
            u = 2 powr (of_int e - 52);
            y = of_int (round_even (x / u)) * u
        in if max_float < \<bar>y\<bar> then (if 0 < x then PInf else NInf) else Fin y)"

subsection \<open>The operators of Python on floats\<close>

text \<open>
  The operators \<^verbatim>\<open>-x\<close>, \<^verbatim>\<open>x + y\<close>, \<^verbatim>\<open>x - y\<close> and \<^verbatim>\<open>x * y\<close> round the exact result
  and raise nothing: a result out of range is an infinity, an undefined one a NaN.
\<close>

fun fneg :: "pyfloat \<Rightarrow> pyfloat" where
  "fneg (Fin x) = Fin (- x)"
| "fneg PInf = NInf"
| "fneg NInf = PInf"
| "fneg NaN = NaN"

fun fsgn :: "pyfloat \<Rightarrow> real" where
  "fsgn (Fin x) = sgn x"
| "fsgn PInf = 1"
| "fsgn NInf = - 1"
| "fsgn NaN = 0"

fun fadd :: "pyfloat \<Rightarrow> pyfloat \<Rightarrow> pyfloat" where
  "fadd (Fin x) (Fin y) = rnd (x + y)"
| "fadd NaN y = NaN"
| "fadd x NaN = NaN"
| "fadd PInf NInf = NaN"
| "fadd NInf PInf = NaN"
| "fadd PInf y = PInf"
| "fadd NInf y = NInf"
| "fadd (Fin x) PInf = PInf"
| "fadd (Fin x) NInf = NInf"

definition fsub :: "pyfloat \<Rightarrow> pyfloat \<Rightarrow> pyfloat" where
  "fsub x y = fadd x (fneg y)"

fun fmul :: "pyfloat \<Rightarrow> pyfloat \<Rightarrow> pyfloat" where
  "fmul (Fin x) (Fin y) = rnd (x * y)"
| "fmul NaN y = NaN"
| "fmul x NaN = NaN"
| "fmul x y =
     (if fsgn x * fsgn y = 0 then NaN else if 0 < fsgn x * fsgn y then PInf else NInf)"

text \<open>\<^verbatim>\<open>x / y\<close> raises on a zero divisor, whatever the dividend.\<close>

fun fdiv :: "pyfloat \<Rightarrow> pyfloat \<Rightarrow> error + pyfloat" where
  "fdiv x (Fin y) =
     (if y = 0 then Inl ZeroDivisionError
      else case x of
        Fin x' \<Rightarrow> Inr (rnd (x' / y))
      | NaN \<Rightarrow> Inr NaN
      | _ \<Rightarrow> Inr (if 0 < fsgn x * y then PInf else NInf))"
| "fdiv x NaN = Inr NaN"
| "fdiv (Fin x) y = Inr (Fin 0)"
| "fdiv x y = Inr NaN"

text \<open>The comparison \<^verbatim>\<open>x > 0\<close>; it is false on a NaN.\<close>

fun gt0 :: "pyfloat \<Rightarrow> bool" where
  "gt0 (Fin x) = (0 < x)"
| "gt0 PInf = True"
| "gt0 NInf = False"
| "gt0 NaN = False"

text \<open>
  An \<^verbatim>\<open>int\<close> operand of a float operator is converted first; the conversion rounds, and
  raises \<^verbatim>\<open>OverflowError\<close> on an integer too large for a double.
\<close>

definition of_int_f :: "int \<Rightarrow> error + pyfloat" where
  "of_int_f i = (case rnd (of_int i) of Fin y \<Rightarrow> Inr (Fin y) | _ \<Rightarrow> Inl OverflowError)"

text \<open>\<^verbatim>\<open>int(x)\<close> raises \<^verbatim>\<open>ValueError\<close> on a NaN and \<^verbatim>\<open>OverflowError\<close> on an infinity.\<close>

fun py_int_f :: "pyfloat \<Rightarrow> error + int" where
  "py_int_f (Fin x) = Inr (py_int x)"
| "py_int_f NaN = Inl ValueError"
| "py_int_f x = Inl OverflowError"

text \<open>
  \<^verbatim>\<open>math.log\<close> and \<^verbatim>\<open>math.exp\<close>, taken as correctly rounded. \<^verbatim>\<open>math.log\<close> raises
  \<^verbatim>\<open>ValueError\<close> outside its domain. \<^verbatim>\<open>math.exp\<close> raises \<^verbatim>\<open>OverflowError\<close> when the
  result of a finite argument is out of range, and returns zero or a subnormal number on
  underflow.
\<close>

fun math_log :: "pyfloat \<Rightarrow> error + pyfloat" where
  "math_log (Fin x) = (if x \<le> 0 then Inl ValueError else Inr (rnd (ln x)))"
| "math_log PInf = Inr PInf"
| "math_log NInf = Inl ValueError"
| "math_log NaN = Inr NaN"

fun math_exp :: "pyfloat \<Rightarrow> error + pyfloat" where
  "math_exp (Fin x) = (case rnd (exp x) of PInf \<Rightarrow> Inl OverflowError | y \<Rightarrow> Inr y)"
| "math_exp PInf = Inr PInf"
| "math_exp NInf = Inr (Fin 0)"
| "math_exp NaN = Inr NaN"

text \<open>Sequencing: the first raise ends the evaluation.\<close>

definition and_then :: "error + 'a \<Rightarrow> ('a \<Rightarrow> error + 'b) \<Rightarrow> error + 'b" where
  "and_then m f = (case m of Inl e \<Rightarrow> Inl e | Inr x \<Rightarrow> f x)"

subsection \<open>The constructor over doubles\<close>

text \<open>
  The constructor again, statement by statement. A float argument is the double nearest to
  the value written in the call. \<^verbatim>\<open>sum(phase_ratio)\<close> adds from the left, starting at
  the integer 0; CPython from 3.12 on compensates the rounding errors of this sum, which
  can change whether the assertion on the ratios holds and nothing else. In
  \<^verbatim>\<open>-math.log(final_lr_scale) / self.decay_steps\<close> the logarithm is taken first, then
  the divisor is converted, then the division looks at it.
\<close>

definition init64 :: "pyfloat optimizer \<Rightarrow> args \<Rightarrow> error + pyfloat scheduler" where
  "init64 opt a =
     (let peak = rnd (arg_peak_lr a) in
      if (case arg_init_lr_scale a of None \<Rightarrow> False | Some sc \<Rightarrow> \<not> gt0 (rnd sc))
      then Inl AssertionError
      else
      let init_lr' = (case arg_init_lr_scale a of
                        None \<Rightarrow> rnd (arg_init_lr a)
                      | Some sc \<Rightarrow> fmul (rnd sc) peak) in
      if (case arg_final_lr_scale a of None \<Rightarrow> False | Some sc \<Rightarrow> \<not> gt0 (rnd sc))
      then Inl AssertionError
      else
      and_then (case arg_final_lr_scale a of
                  None \<Rightarrow> fdiv (rnd (arg_final_lr a)) peak
                | Some sc \<Rightarrow> Inr (rnd sc))
        (\<lambda>final_lr_scale.
      let final_lr' = (case arg_final_lr_scale a of
                         None \<Rightarrow> rnd (arg_final_lr a)
                       | Some sc \<Rightarrow> fmul (rnd sc) peak) in
      if arg_phase_ratio a \<noteq> None \<and> \<not> 0 < arg_total_steps a
      then Inl AssertionError
      else if (case arg_phase_ratio a of
                 None \<Rightarrow> False
               | Some (r0, r1, r2) \<Rightarrow>
                   fadd (fadd (fadd (Fin 0) (rnd r0)) (rnd r1)) (rnd r2) \<noteq> Fin 1)
      then Inl AssertionError
      else
      and_then (case arg_phase_ratio a of
                  None \<Rightarrow> Inr (arg_warmup_steps a, arg_hold_steps a, arg_decay_steps a)
                | Some (r0, r1, r2) \<Rightarrow>
                    and_then (of_int_f (arg_total_steps a)) (\<lambda>t.
                    and_then (py_int_f (fmul t (rnd r0))) (\<lambda>w.
                    and_then (py_int_f (fmul t (rnd r1))) (\<lambda>h.
                    and_then (py_int_f (fmul t (rnd r2))) (\<lambda>d.
                      Inr (w, h, d))))))
        (\<lambda>(w, h, d).
      if \<not> 0 < w + h + d
      then Inl AssertionError
      else
      and_then (if w \<noteq> 0
                then and_then (of_int_f w) (\<lambda>w'. fdiv (fsub peak init_lr') w')
                else Inr (Fin 0))
        (\<lambda>wr.
      and_then (math_log final_lr_scale) (\<lambda>l.
      and_then (of_int_f d) (\<lambda>d'.
      and_then (fdiv (fneg l) d') (\<lambda>df.
        Inr \<lparr> optimizer = opt,
              lr = init_lr',
              peak_lr = peak,
              init_lr = init_lr',
              final_lr = final_lr',
              warmup_steps = w,
              hold_steps = h,
              decay_steps = d,
              warmup_rate = wr,
              decay_factor = df,
              update_steps = 0,
              last_lr = None \<rparr>)))))))"

subsection \<open>\<^verbatim>\<open>step\<close> over doubles\<close>

text \<open>
  The rate of a stage: the offset is converted for the product, and in the decay stage
  \<^verbatim>\<open>math.exp\<close> can raise.
\<close>

definition stage_lr64 :: "pyfloat scheduler \<Rightarrow> int \<Rightarrow> int \<Rightarrow> error + pyfloat" where
  "stage_lr64 s stage steps_in_stage =
     (if stage = 0
        then and_then (of_int_f steps_in_stage) (\<lambda>k.
               Inr (fadd (init_lr s) (fmul (warmup_rate s) k)))
      else if stage = 1 then Inr (peak_lr s)
      else if stage = 2
        then and_then (of_int_f steps_in_stage) (\<lambda>k.
             and_then (math_exp (fmul (fneg (decay_factor s)) k)) (\<lambda>e.
               Inr (fmul (peak_lr s) e)))
      else if stage = 3 then Inr (final_lr s)
      else Inl ValueError)"

text \<open>
  A call that raises returns the error and the object as the raise leaves it: a raise in
  the computation of the rate comes before the first assignment.
\<close>

definition step64 ::
  "tensor option \<Rightarrow> pyfloat scheduler
     \<Rightarrow> error \<times> pyfloat scheduler + pyfloat scheduler \<times> pyfloat" where
  "step64 val_loss s =
     (case decide_stage s of
        (stage, steps_in_stage) \<Rightarrow>
          (case stage_lr64 s stage steps_in_stage of
             Inl e \<Rightarrow> Inl (e, s)
           | Inr r \<Rightarrow>
               let s1 = s\<lparr>lr := r\<rparr>;
                   s2 = s1\<lparr>optimizer := set_lr (optimizer s1) (lr s1)\<rparr>;
                   s3 = s2\<lparr>update_steps := update_steps s2 + 1\<rparr>
               in (case read_lrs (param_groups (optimizer s3)) of
                     Inl e \<Rightarrow> Inl (e, s3)
                   | Inr rs \<Rightarrow> Inr (s3\<lparr>last_lr := Some rs\<rparr>, lr s3))))"

text \<open>The training loop stops at the first call that raises.\<close>

fun run64 ::
  "nat \<Rightarrow> pyfloat scheduler
     \<Rightarrow> error \<times> pyfloat scheduler + pyfloat scheduler \<times> pyfloat list" where
  "run64 0 s = Inr (s, [])"
| "run64 (Suc n) s =
     (case step64 None s of
        Inl raised \<Rightarrow> Inl raised
      | Inr (s', r) \<Rightarrow>
          (case run64 n s' of
             Inl raised \<Rightarrow> Inl raised
           | Inr (s'', rs) \<Rightarrow> Inr (s'', r # rs)))"

definition rates64 :: "pyfloat optimizer \<Rightarrow> args \<Rightarrow> nat \<Rightarrow> error + pyfloat list" where
  "rates64 opt a n =
     (case init64 opt a of
        Inl e \<Rightarrow> Inl e
      | Inr s \<Rightarrow> (case run64 n s of Inl (e, s') \<Rightarrow> Inl e | Inr (s', rs) \<Rightarrow> Inr rs))"

subsection \<open>The doubles of the examples\<close>

text \<open>Powers of two with an integer exponent.\<close>

definition pow2 :: "int \<Rightarrow> real" where
  "pow2 e = (if 0 \<le> e then 2 ^ nat e else 1 / 2 ^ nat (- e))"

text \<open>The double of the literal \<^verbatim>\<open>1e-3\<close>.\<close>

definition d_peak :: real where
  "d_peak = 4611686018427388 / 2 ^ 62"

text \<open>The double of the literal \<^verbatim>\<open>1e-5\<close>.\<close>

definition d_final :: real where
  "d_final = 5902958103587057 / 2 ^ 69"

text \<open>\<^verbatim>\<open>1e-5 / 1e-3\<close>, the double \<^verbatim>\<open>0.01\<close>.\<close>

definition d_scale :: real where
  "d_scale = 5764607523034235 / 2 ^ 59"

text \<open>\<^verbatim>\<open>math.log(0.01)\<close>, the double \<^verbatim>\<open>-4.605170185988091\<close>.\<close>

definition d_log :: real where
  "d_log = - (5184960683398421 / 2 ^ 50)"

text \<open>The decay factor \<^verbatim>\<open>2.3025850929940455\<close>.\<close>

definition d_decay :: real where
  "d_decay = 5184960683398421 / 2 ^ 51"

text \<open>\<^verbatim>\<open>math.exp(-4.605170185988091)\<close>, the double \<^verbatim>\<open>0.010000000000000004\<close>.\<close>

definition d_exp :: real where
  "d_exp = 5764607523034237 / 2 ^ 59"

text \<open>The rate at the bound of the decay stage, the double \<^verbatim>\<open>1.0000000000000004e-05\<close>.\<close>

definition d_rate :: real where
  "d_rate = 5902958103587059 / 2 ^ 69"

text \<open>\<^verbatim>\<open>math.exp(-2.3025850929940455)\<close>, the double \<^verbatim>\<open>0.10000000000000002\<close>.\<close>

definition d_exp1 :: real where
  "d_exp1 = 7205759403792795 / 2 ^ 56"

text \<open>The rate at offset 1 of the decay stage, the double \<^verbatim>\<open>0.00010000000000000002\<close>.\<close>

definition d_rate1 :: real where
  "d_rate1 = 7378697629483822 / 2 ^ 66"

text \<open>\<^verbatim>\<open>math.log(sys.float_info.max)\<close>, the double \<^verbatim>\<open>709.782712893384\<close>.\<close>

definition o_log :: real where
  "o_log = 6243314768165359 / 2 ^ 43"

text \<open>The decay factor \<^verbatim>\<open>-64.52570117212582\<close>.\<close>

definition o_decay :: real where
  "o_decay = - (4540592558665716 / 2 ^ 46)"

text \<open>\<^verbatim>\<open>64.52570117212582 * 11\<close>, the double \<^verbatim>\<open>709.7827128933841\<close>.\<close>

definition o_arg :: real where
  "o_arg = 6243314768165360 / 2 ^ 43"

text \<open>An optimizer with two parameter groups.\<close>

definition example_optimizer64 :: "pyfloat optimizer" where
  "example_optimizer64 =
     \<lparr> param_groups =
         [[''lr'' \<mapsto> Fin 1], [''lr'' \<mapsto> Fin (1 / 2), ''momentum'' \<mapsto> Fin (1 / 2)]] \<rparr>"

text \<open>The object the constructor returns on \<open>example_args\<close>.\<close>

definition example64 :: "pyfloat scheduler" where
  "example64 =
     \<lparr> optimizer = example_optimizer64,
       lr = Fin 0,
       peak_lr = Fin d_peak,
       init_lr = Fin 0,
       final_lr = Fin d_final,
       warmup_steps = 2,
       hold_steps = 1,
       decay_steps = 2,
       warmup_rate = Fin (d_peak / 2),
       decay_factor = Fin d_decay,
       update_steps = 0,
       last_lr = None \<rparr>"

text \<open>
  A schedule that ends far above its peak:
  \<^verbatim>\<open>TriStageLRScheduler(opt, peak_lr=1.0, final_lr_scale=sys.float_info.max, decay_steps=11)\<close>,
  and the object the constructor returns on it.
\<close>

definition overflow_args :: args where
  "overflow_args =
     (default_args 1)
       \<lparr> arg_final_lr_scale := Some max_float,
         arg_decay_steps := 11 \<rparr>"

definition overflow64 :: "pyfloat scheduler" where
  "overflow64 =
     \<lparr> optimizer = example_optimizer64,
       lr = Fin 0,
       peak_lr = Fin 1,
       init_lr = Fin 0,
       final_lr = Fin max_float,
       warmup_steps = 0,
       hold_steps = 0,
       decay_steps = 11,
       warmup_rate = Fin 0,
       decay_factor = Fin o_decay,
       update_steps = 0,
       last_lr = None \<rparr>"

section \<open>Facts about the operations\<close>

lemma init_example: "init example_optimizer example_args = Inr example_scheduler"
  by (simp add: init_def example_args_def default_args_def example_scheduler_def)

lemma init_fresh:
  assumes "init opt a = Inr s"
  shows "update_steps s = 0" and "last_lr s = None" and "optimizer s = opt"
    and "lr s = init_lr s" and "decay_steps s \<noteq> 0"
    and "0 < warmup_steps s + hold_steps s + decay_steps s"
  using assms by (auto simp: init_def Let_def split: if_splits)

lemma read_lrs_set: "read_lrs (map (\<lambda>g. g(''lr'' \<mapsto> r)) gs) = Inr (replicate (length gs) r)"
  by (induction gs) simp_all

lemma decide_stage_tag: "fst (decide_stage s) \<in> {0, 1, 2, 3}"
  by (simp add: decide_stage_def Let_def)

lemma decide_stage_offset:
  assumes "0 \<le> update_steps s"
  shows "0 \<le> snd (decide_stage s)"
  using assms by (simp add: decide_stage_def Let_def)

lemma stage_lr_defined:
  assumes "stage \<in> {0, 1, 2, 3}"
  shows "\<exists>r. stage_lr s stage k = Inr r"
  using assms by (auto simp: stage_lr_def)

text \<open>What a call leaves behind, given the rate of its stage.\<close>

lemma step_result:
  assumes "stage_lr s (fst (decide_stage s)) (snd (decide_stage s)) = Inr r"
  shows "step val_loss s =
           Inr (s\<lparr> lr := r,
                   optimizer := set_lr (optimizer s) r,
                   update_steps := update_steps s + 1,
                   last_lr := Some (replicate (length (param_groups (optimizer s))) r) \<rparr>, r)"
  using assms by (simp add: step_def case_prod_beta set_lr_def read_lrs_set)

lemma step_total: "\<exists>s' r. step val_loss s = Inr (s', r)"
proof -
  obtain r where "stage_lr s (fst (decide_stage s)) (snd (decide_stage s)) = Inr r"
    using stage_lr_defined [OF decide_stage_tag] by blast
  then show ?thesis
    using step_result by blast
qed

lemma step_fields:
  assumes "step val_loss s = Inr (s', r)"
  shows "lr s' = r"
    and "param_groups (optimizer s') = map (\<lambda>g. g(''lr'' \<mapsto> r)) (param_groups (optimizer s))"
    and "update_steps s' = update_steps s + 1"
    and "last_lr s' = Some (replicate (length (param_groups (optimizer s))) r)"
    and "warmup_steps s' = warmup_steps s" and "hold_steps s' = hold_steps s"
    and "decay_steps s' = decay_steps s" and "final_lr s' = final_lr s"
    and "stage_lr s (fst (decide_stage s)) (snd (decide_stage s)) = Inr r"
proof -
  obtain r0 where r0: "stage_lr s (fst (decide_stage s)) (snd (decide_stage s)) = Inr r0"
    using stage_lr_defined [OF decide_stage_tag] by blast
  from step_result [OF r0, of val_loss] assms
  have s': "s' = s\<lparr> lr := r0,
                    optimizer := set_lr (optimizer s) r0,
                    update_steps := update_steps s + 1,
                    last_lr := Some (replicate (length (param_groups (optimizer s))) r0) \<rparr>"
    and r: "r = r0"
    by simp_all
  show "lr s' = r" "update_steps s' = update_steps s + 1"
    "last_lr s' = Some (replicate (length (param_groups (optimizer s))) r)"
    "warmup_steps s' = warmup_steps s" "hold_steps s' = hold_steps s"
    "decay_steps s' = decay_steps s" "final_lr s' = final_lr s"
    by (simp_all add: s' r)
  show "param_groups (optimizer s') = map (\<lambda>g. g(''lr'' \<mapsto> r)) (param_groups (optimizer s))"
    by (simp add: s' r set_lr_def)
  show "stage_lr s (fst (decide_stage s)) (snd (decide_stage s)) = Inr r"
    by (simp add: r0 r)
qed

lemma run_total: "\<exists>s' rs. run n s = Inr (s', rs)"
proof (induction n arbitrary: s)
  case 0
  show ?case by simp
next
  case (Suc n)
  obtain s1 r where s1: "step None s = Inr (s1, r)"
    using step_total by blast
  obtain s2 rs where "run n s1 = Inr (s2, rs)"
    using Suc.IH by blast
  with s1 show ?case by simp
qed

lemma run_count:
  assumes "run n s = Inr (s', rs)"
  shows "update_steps s' = update_steps s + int n" and "length rs = n"
  using assms
proof (induction n arbitrary: s s' rs)
  case 0
  {
    case 1
    then show ?case by simp
  next
    case 2
    then show ?case by simp
  }
next
  case (Suc n)
  {
    case 1
    then obtain s1 r s2 rs2 where st: "step None s = Inr (s1, r)"
      and rn: "run n s1 = Inr (s2, rs2)" and eq: "s' = s2"
      by (auto split: sum.splits prod.splits)
    from Suc.IH(1) [OF rn] step_fields(3) [OF st] eq show ?case by simp
  next
    case 2
    then obtain s1 r s2 rs2 where st: "step None s = Inr (s1, r)"
      and rn: "run n s1 = Inr (s2, rs2)" and eq: "rs = r # rs2"
      by (auto split: sum.splits prod.splits)
    from Suc.IH(2) [OF rn] eq show ?case by simp
  }
qed

lemma step_example: "step val_loss (example_at 2) = Inr (example_stepped, 1 / 1000)"
  by (simp add: step_def decide_stage_def stage_lr_def set_lr_def example_at_def
      example_scheduler_def example_optimizer_def example_stepped_def)

subsection \<open>When the constructor raises\<close>

text \<open>Each of the four conditions on the arguments keeps the constructor from returning.\<close>

lemma init_rejects:
  assumes "(\<exists>sc. arg_init_lr_scale a = Some sc \<and> sc \<le> 0)
         \<or> (\<exists>sc. arg_final_lr_scale a = Some sc \<and> sc \<le> 0)
         \<or> (\<exists>r. arg_phase_ratio a = Some r \<and> arg_total_steps a \<le> 0)
         \<or> (\<exists>r0 r1 r2. arg_phase_ratio a = Some (r0, r1, r2) \<and> r0 + r1 + r2 \<noteq> 1)
         \<or> (arg_phase_ratio a = None \<and> arg_warmup_steps a = 0
              \<and> arg_hold_steps a = 0 \<and> arg_decay_steps a = 0)"
  shows "init opt a \<noteq> Inr s"
  using assms by (auto simp: init_def Let_def split: if_splits)

text \<open>
  So do a decay phase of length 0 and a final rate of 0 without a scale, whatever the
  other arguments are: the decay factor cannot be computed.
\<close>

lemma init_needs_decay_steps:
  assumes "arg_phase_ratio a = None" and "arg_decay_steps a = 0"
  shows "init opt a \<noteq> Inr s"
  using assms by (auto simp: init_def Let_def split: if_splits)

lemma init_needs_final_lr:
  assumes "arg_final_lr_scale a = None" and "arg_final_lr a = 0"
  shows "init opt a \<noteq> Inr s"
  using assms by (auto simp: init_def Let_def split: if_splits)

subsection \<open>The final stage\<close>

text \<open>
  Past the decay window a call returns \<^verbatim>\<open>final_lr\<close> as it is stored, and the object it
  leaves is past the window again.
\<close>

lemma final_stage_absorbing:
  assumes "0 \<le> hold_steps s" and "0 \<le> decay_steps s"
    and "warmup_steps s + hold_steps s + decay_steps s < update_steps s"
  shows "\<exists>s'. step val_loss s = Inr (s', final_lr s)
           \<and> final_lr s' = final_lr s
           \<and> warmup_steps s' + hold_steps s' + decay_steps s'  < update_steps s'
           \<and> 0 \<le> hold_steps s' \<and> 0 \<le> decay_steps s'"
proof -
  have "decide_stage s =
      (3, update_steps s - warmup_steps s - hold_steps s - decay_steps s)"
    using assms by (auto simp: decide_stage_def Let_def)
  then have "stage_lr s (fst (decide_stage s)) (snd (decide_stage s)) = Inr (final_lr s)"
    by (simp add: stage_lr_def)
  from step_result [OF this, of val_loss] assms show ?thesis
    by simp
qed

text \<open>
  At the upper bound of the decay window, which the decay stage includes, the rate is
  computed by the decay formula at the offset \<^verbatim>\<open>decay_steps\<close>.
\<close>

lemma decay_bound_rate:
  assumes "0 \<le> hold_steps s" and "0 \<le> decay_steps s"
    and "update_steps s = warmup_steps s + hold_steps s + decay_steps s"
  shows "\<exists>s'. step val_loss s =
           Inr (s', peak_lr s * exp (- decay_factor s * real_of_int (decay_steps s)))"
proof -
  have "decide_stage s = (2, decay_steps s)"
    using assms by (auto simp: decide_stage_def Let_def)
  then have "stage_lr s (fst (decide_stage s)) (snd (decide_stage s)) =
      Inr (peak_lr s * exp (- decay_factor s * real_of_int (decay_steps s)))"
    by (simp add: stage_lr_def)
  from step_result [OF this, of val_loss] show ?thesis
    by blast
qed

text \<open>
  In the exact arithmetic of the model that value is \<^verbatim>\<open>final_lr\<close>, by
  \<open>exp (ln x) = x\<close>. The identity is one of the real numbers; it is not one of
  \<^verbatim>\<open>math.exp\<close> and \<^verbatim>\<open>math.log\<close> on floats.
\<close>

lemma decay_bound_exact:
  assumes "init opt a = Inr s"
  shows "peak_lr s * exp (- decay_factor s * real_of_int (decay_steps s)) = final_lr s"
  using assms by (auto simp: init_def Let_def split: if_splits option.splits)

text \<open>Calls made in a row compose, and past the decay window all of them return \<^verbatim>\<open>final_lr\<close>.\<close>

lemma run_append:
  assumes "run m s = Inr (s1, rs1)" and "run k s1 = Inr (s2, rs2)"
  shows "run (m + k) s = Inr (s2, rs1 @ rs2)"
  using assms
proof (induction m arbitrary: s rs1)
  case 0
  then show ?case by simp
next
  case (Suc m)
  from Suc.prems(1) obtain t r ts where st: "step None s = Inr (t, r)"
    and rn: "run m t = Inr (s1, ts)" and eq: "rs1 = r # ts"
    by (auto split: sum.splits prod.splits)
  from Suc.IH [OF rn Suc.prems(2)] st eq show ?case
    by simp
qed

lemma run_final:
  assumes "0 \<le> hold_steps s" and "0 \<le> decay_steps s"
    and "warmup_steps s + hold_steps s + decay_steps s < update_steps s"
  shows "\<exists>s'. run k s = Inr (s', replicate k (final_lr s))"
  using assms
proof (induction k arbitrary: s)
  case 0
  show ?case by simp
next
  case (Suc k)
  obtain t where st: "step None s = Inr (t, final_lr s)"
    and fl: "final_lr t = final_lr s"
    and past: "warmup_steps t + hold_steps t + decay_steps t < update_steps t"
    and nn: "0 \<le> hold_steps t" "0 \<le> decay_steps t"
    using final_stage_absorbing [OF Suc.prems, of None] by blast
  obtain s' where "run k t = Inr (s', replicate k (final_lr t))"
    using Suc.IH [OF nn past] by blast
  with st fl show ?case
    by simp
qed

text \<open>
  Of the \<^verbatim>\<open>warmup_steps + hold_steps + decay_steps + 5\<close> calls on a fresh object, the
  last four return \<^verbatim>\<open>final_lr\<close> as it is stored, and the one before them returns what
  the decay formula gives at the bound.
\<close>

lemma last_rates:
  assumes "init opt a = Inr s0"
    and "0 \<le> warmup_steps s0" and "0 \<le> hold_steps s0" and "0 \<le> decay_steps s0"
  shows "\<exists>s rs. run (nat (warmup_steps s0 + hold_steps s0 + decay_steps s0) + 5) s0
                  = Inr (s, rs @ [peak_lr s0 * exp (- decay_factor s0 * real_of_int (decay_steps s0)),
                                 final_lr s0, final_lr s0, final_lr s0, final_lr s0])"
proof -
  let ?n = "nat (warmup_steps s0 + hold_steps s0 + decay_steps s0)"
  obtain s1 rs where r1: "run ?n s0 = Inr (s1, rs)"
    using run_total by blast
  have u1: "update_steps s1 = warmup_steps s0 + hold_steps s0 + decay_steps s0"
    using run_count(1) [OF r1] init_fresh(1) [OF assms(1)] assms(2-4) by simp
  have keep: "warmup_steps t = warmup_steps s \<and> hold_steps t = hold_steps s
      \<and> decay_steps t = decay_steps s \<and> final_lr t = final_lr s
      \<and> peak_lr t = peak_lr s \<and> decay_factor t = decay_factor s"
    if "run n s = Inr (t, xs)" for n s t xs
    using that
  proof (induction n arbitrary: s xs)
    case 0
    then show ?case by simp
  next
    case (Suc n)
    from Suc.prems obtain m r ys where st: "step None s = Inr (m, r)"
      and rn: "run n m = Inr (t, ys)"
      by (auto split: sum.splits prod.splits)
    obtain r0 where "stage_lr s (fst (decide_stage s)) (snd (decide_stage s)) = Inr r0"
      using stage_lr_defined [OF decide_stage_tag] by blast
    from step_result [OF this, of None] st
    have "warmup_steps m = warmup_steps s \<and> hold_steps m = hold_steps s
      \<and> decay_steps m = decay_steps s \<and> final_lr m = final_lr s
      \<and> peak_lr m = peak_lr s \<and> decay_factor m = decay_factor s"
      by auto
    with Suc.IH [OF rn] show ?case by simp
  qed
  note k1 = keep [OF r1]
  obtain s2 where st: "step None s1 =
      Inr (s2, peak_lr s1 * exp (- decay_factor s1 * real_of_int (decay_steps s1)))"
    using decay_bound_rate [of s1 None] k1 u1 assms(3,4) by auto
  have r2: "run 1 s1 =
      Inr (s2, [peak_lr s0 * exp (- decay_factor s0 * real_of_int (decay_steps s0))])"
    using st k1 by simp
  have k2: "warmup_steps s2 = warmup_steps s0 \<and> hold_steps s2 = hold_steps s0
      \<and> decay_steps s2 = decay_steps s0 \<and> final_lr s2 = final_lr s0"
    using keep [OF r2] k1 by simp
  have u2: "update_steps s2 = update_steps s1 + 1"
    by (rule step_fields(3) [OF st])
  obtain s3 where r3: "run 4 s2 = Inr (s3, replicate 4 (final_lr s2))"
    using run_final [of s2 4] k2 u2 u1 assms(3,4) by auto
  have "run (?n + (1 + 4)) s0 =
      Inr (s3, rs @ ([peak_lr s0 * exp (- decay_factor s0 * real_of_int (decay_steps s0))]
                     @ replicate 4 (final_lr s2)))"
    by (rule run_append [OF r1 run_append [OF r2 r3]])
  then show ?thesis
    using k2 by (simp add: eval_nat_numeral)
qed

section \<open>Facts about the binary64 reading\<close>

subsection \<open>Calls and runs\<close>

text \<open>The arithmetic of a rate raises nothing but \<^verbatim>\<open>OverflowError\<close>.\<close>

lemma of_int_f_error:
  assumes "of_int_f i = Inl e"
  shows "e = OverflowError"
  using assms by (auto simp: of_int_f_def split: pyfloat.splits)

lemma math_exp_error:
  assumes "math_exp x = Inl e"
  shows "e = OverflowError"
  using assms by (cases x) (auto split: pyfloat.splits)

lemma stage_lr64_error:
  assumes "stage_lr64 s stage k = Inl e" and "stage \<in> {0, 1, 2, 3}"
  shows "e = OverflowError" and "stage = 0 \<or> stage = 2"
  using assms
  by (auto simp: stage_lr64_def and_then_def split: sum.splits if_splits
      dest: of_int_f_error math_exp_error)

lemma step64_result:
  assumes "stage_lr64 s (fst (decide_stage s)) (snd (decide_stage s)) = Inr r"
  shows "step64 val_loss s =
           Inr (s\<lparr> lr := r,
                   optimizer := set_lr (optimizer s) r,
                   update_steps := update_steps s + 1,
                   last_lr := Some (replicate (length (param_groups (optimizer s))) r) \<rparr>, r)"
  using assms by (simp add: step64_def case_prod_beta set_lr_def read_lrs_set)

lemma step64_raise:
  assumes "stage_lr64 s (fst (decide_stage s)) (snd (decide_stage s)) = Inl e"
  shows "step64 val_loss s = Inl (e, s)"
  using assms by (simp add: step64_def case_prod_beta)

lemma step64_error:
  assumes "step64 val_loss s = Inl (e, t)"
  shows "e = OverflowError" and "t = s"
    and "fst (decide_stage s) = 0 \<or> fst (decide_stage s) = 2"
proof -
  have raised: "stage_lr64 s (fst (decide_stage s)) (snd (decide_stage s)) = Inl e \<and> t = s"
  proof (cases "stage_lr64 s (fst (decide_stage s)) (snd (decide_stage s))")
    case (Inl e')
    with step64_raise [OF Inl, of val_loss] assms show ?thesis
      by simp
  next
    case (Inr r)
    with step64_result [OF Inr, of val_loss] assms show ?thesis
      by simp
  qed
  then show "t = s"
    by simp
  from raised have "stage_lr64 s (fst (decide_stage s)) (snd (decide_stage s)) = Inl e"
    by simp
  from stage_lr64_error [OF this decide_stage_tag]
  show "e = OverflowError" and "fst (decide_stage s) = 0 \<or> fst (decide_stage s) = 2"
    by simp_all
qed

lemma step64_fields:
  assumes "step64 val_loss s = Inr (s', r)"
  shows "lr s' = r"
    and "param_groups (optimizer s') = map (\<lambda>g. g(''lr'' \<mapsto> r)) (param_groups (optimizer s))"
    and "update_steps s' = update_steps s + 1"
    and "last_lr s' = Some (replicate (length (param_groups (optimizer s))) r)"
    and "warmup_steps s' = warmup_steps s" and "hold_steps s' = hold_steps s"
    and "decay_steps s' = decay_steps s" and "final_lr s' = final_lr s"
    and "peak_lr s' = peak_lr s" and "decay_factor s' = decay_factor s"
    and "init_lr s' = init_lr s" and "warmup_rate s' = warmup_rate s"
    and "stage_lr64 s (fst (decide_stage s)) (snd (decide_stage s)) = Inr r"
proof -
  have "\<exists>r0. stage_lr64 s (fst (decide_stage s)) (snd (decide_stage s)) = Inr r0"
  proof (cases "stage_lr64 s (fst (decide_stage s)) (snd (decide_stage s))")
    case (Inl e)
    with step64_raise [OF Inl, of val_loss] assms show ?thesis
      by simp
  next
    case (Inr r0)
    then show ?thesis by blast
  qed
  then obtain r0 where r0: "stage_lr64 s (fst (decide_stage s)) (snd (decide_stage s)) = Inr r0"
    by blast
  from step64_result [OF r0, of val_loss] assms
  have s': "s' = s\<lparr> lr := r0,
                    optimizer := set_lr (optimizer s) r0,
                    update_steps := update_steps s + 1,
                    last_lr := Some (replicate (length (param_groups (optimizer s))) r0) \<rparr>"
    and r: "r = r0"
    by simp_all
  show "lr s' = r" "update_steps s' = update_steps s + 1"
    "last_lr s' = Some (replicate (length (param_groups (optimizer s))) r)"
    "warmup_steps s' = warmup_steps s" "hold_steps s' = hold_steps s"
    "decay_steps s' = decay_steps s" "final_lr s' = final_lr s"
    "peak_lr s' = peak_lr s" "decay_factor s' = decay_factor s"
    "init_lr s' = init_lr s" "warmup_rate s' = warmup_rate s"
    by (simp_all add: s' r)
  show "param_groups (optimizer s') = map (\<lambda>g. g(''lr'' \<mapsto> r)) (param_groups (optimizer s))"
    by (simp add: s' r set_lr_def)
  show "stage_lr64 s (fst (decide_stage s)) (snd (decide_stage s)) = Inr r"
    by (simp add: r0 r)
qed

text \<open>The rate of a stage depends on the constants of the schedule alone.\<close>

lemma stage_lr64_cong:
  assumes "peak_lr t = peak_lr s" and "decay_factor t = decay_factor s"
    and "init_lr t = init_lr s" and "warmup_rate t = warmup_rate s"
    and "final_lr t = final_lr s"
  shows "stage_lr64 t stage k = stage_lr64 s stage k"
  using assms by (simp add: stage_lr64_def)

lemma run64_error:
  assumes "run64 n s = Inl (e, t)"
  shows "e = OverflowError"
  using assms
proof (induction n arbitrary: s)
  case 0
  then show ?case by simp
next
  case (Suc n)
  show ?case
  proof (cases "step64 None s")
    case (Inl raised)
    with Suc.prems have "step64 None s = Inl (e, t)"
      by simp
    then show ?thesis
      by (rule step64_error(1))
  next
    case (Inr p)
    obtain m r where p: "p = (m, r)"
      by (cases p)
    with Inr Suc.prems have "run64 n m = Inl (e, t)"
      by (simp split: sum.splits prod.splits)
    then show ?thesis
      by (rule Suc.IH)
  qed
qed

lemma run64_add:
  "run64 (m + k) s =
     (case run64 m s of
        Inl raised \<Rightarrow> Inl raised
      | Inr (s1, rs1) \<Rightarrow>
          (case run64 k s1 of
             Inl raised \<Rightarrow> Inl raised
           | Inr (s2, rs2) \<Rightarrow> Inr (s2, rs1 @ rs2)))"
proof (induction m arbitrary: s)
  case 0
  show ?case
    by (simp split: sum.splits prod.splits)
next
  case (Suc m)
  show ?case
    by (simp add: Suc.IH split: sum.splits prod.splits)
qed

lemma run64_keep:
  assumes "run64 n s = Inr (t, rs)"
  shows "update_steps t = update_steps s + int n" and "length rs = n"
    and "warmup_steps t = warmup_steps s" and "hold_steps t = hold_steps s"
    and "decay_steps t = decay_steps s" and "final_lr t = final_lr s"
    and "peak_lr t = peak_lr s" and "decay_factor t = decay_factor s"
    and "init_lr t = init_lr s" and "warmup_rate t = warmup_rate s"
proof -
  have "update_steps t = update_steps s + int n \<and> length rs = n
      \<and> warmup_steps t = warmup_steps s \<and> hold_steps t = hold_steps s
      \<and> decay_steps t = decay_steps s \<and> final_lr t = final_lr s
      \<and> peak_lr t = peak_lr s \<and> decay_factor t = decay_factor s
      \<and> init_lr t = init_lr s \<and> warmup_rate t = warmup_rate s"
    using assms
  proof (induction n arbitrary: s rs)
    case 0
    then show ?case by simp
  next
    case (Suc n)
    from Suc.prems obtain m r ys where st: "step64 None s = Inr (m, r)"
      and rn: "run64 n m = Inr (t, ys)" and rs: "rs = r # ys"
      by (auto split: sum.splits prod.splits)
    note f = step64_fields [OF st]
    from Suc.IH [OF rn] f rs show ?case
      by simp
  qed
  then show "update_steps t = update_steps s + int n" and "length rs = n"
    and "warmup_steps t = warmup_steps s" and "hold_steps t = hold_steps s"
    and "decay_steps t = decay_steps s" and "final_lr t = final_lr s"
    and "peak_lr t = peak_lr s" and "decay_factor t = decay_factor s"
    and "init_lr t = init_lr s" and "warmup_rate t = warmup_rate s"
    by simp_all
qed

lemma init64_fresh:
  assumes "init64 opt a = Inr s"
  shows "update_steps s = 0" and "last_lr s = None" and "optimizer s = opt"
    and "0 < warmup_steps s + hold_steps s + decay_steps s"
  using assms
  by (auto simp: init64_def and_then_def Let_def split: if_splits sum.splits prod.splits)



subsection \<open>Rounding a given real number\<close>

text \<open>
  A real number in a binade \<open>[pow2 e, pow2 (e + 1))\<close> is rounded to the multiple
  \<open>m * pow2 (e - 52)\<close> it is nearest to.
\<close>

lemma pow2_powr: "pow2 e = 2 powr (of_int e)"
proof (cases "0 \<le> e")
  case True
  then have "2 powr (of_int e) = (2::real) powr (real (nat e))"
    by simp
  also have "\<dots> = 2 ^ nat e"
    by (rule powr_realpow) simp
  finally show ?thesis
    using True by (simp add: pow2_def)
next
  case False
  then have "(2::real) powr (of_int e) = 2 powr (- real (nat (- e)))"
    by simp
  also have "\<dots> = inverse (2 powr (real (nat (- e))))"
    by (rule powr_minus)
  also have "2 powr (real (nat (- e))) = (2::real) ^ nat (- e)"
    by (rule powr_realpow) simp
  finally show ?thesis
    using False by (simp add: pow2_def inverse_eq_divide)
qed

lemma pow2_pos: "0 < pow2 e"
  by (simp add: pow2_powr)

lemma round_even_near:
  assumes "\<bar>y - of_int m\<bar> < 1 / 2 \<or> \<bar>y - of_int m\<bar> = 1 / 2 \<and> even m"
  shows "round_even y = m"
proof (cases "of_int m \<le> y")
  case True
  have le: "\<bar>y - of_int m\<bar> \<le> 1 / 2"
    using assms by auto
  have "of_int m \<le> y" and "y < of_int m + 1"
    using le True by linarith+
  then have f: "\<lfloor>y\<rfloor> = m"
    by (rule floor_unique)
  show ?thesis
    using assms True by (auto simp: round_even_def f Let_def)
next
  case False
  have le: "\<bar>y - of_int m\<bar> \<le> 1 / 2"
    using assms by auto
  have "of_int (m - 1) \<le> y" and "y < of_int (m - 1) + 1"
    using le False by simp_all
  then have f: "\<lfloor>y\<rfloor> = m - 1"
    by (rule floor_unique)
  show ?thesis
    using assms False by (auto simp: round_even_def f Let_def)
qed

lemma rnd_eqI:
  assumes e: "- 1022 \<le> e"
    and lo: "pow2 e \<le> \<bar>x\<bar>" and hi: "\<bar>x\<bar> < pow2 (e + 1)"
    and near: "\<bar>x / pow2 (e - 52) - of_int m\<bar> < 1 / 2
             \<or> \<bar>x / pow2 (e - 52) - of_int m\<bar> = 1 / 2 \<and> even m"
    and range: "\<bar>of_int m\<bar> * pow2 (e - 52) \<le> max_float"
  shows "rnd x = Fin (of_int m * pow2 (e - 52))"
proof -
  have pos: "0 < \<bar>x\<bar>"
    using lo pow2_pos [of e] by linarith
  then have nz: "x \<noteq> 0"
    by simp
  have "\<lfloor>log 2 \<bar>x\<bar>\<rfloor> = e"
    using lo hi pos by (subst floor_log_eq_powr_iff) (simp_all add: pow2_powr)
  then have ex: "max (- 1022) \<lfloor>log 2 \<bar>x\<bar>\<rfloor> = e"
    using e by simp
  have u: "2 powr (of_int e - 52) = pow2 (e - 52)"
    by (simp add: pow2_powr)
  have r: "round_even (x / pow2 (e - 52)) = m"
    by (rule round_even_near [OF near])
  have "\<bar>of_int m * pow2 (e - 52)\<bar> = \<bar>of_int m\<bar> * pow2 (e - 52)"
    using pow2_pos [of "e - 52"] by (simp add: abs_mult)
  with range have "\<not> max_float < \<bar>of_int m * pow2 (e - 52)\<bar>"
    by simp
  then show ?thesis
    using nz by (simp add: rnd_def ex u r Let_def)
qed

text \<open>The same for a value known by an enclosure, above and below zero.\<close>

lemma rnd_between:
  assumes "- 1022 \<le> e" and "lo < x" and "x < hi"
    and "pow2 e \<le> lo" and "hi \<le> pow2 (e + 1)"
    and "(of_int m - 1 / 2) * pow2 (e - 52) \<le> lo"
    and "hi \<le> (of_int m + 1 / 2) * pow2 (e - 52)"
    and "\<bar>of_int m\<bar> * pow2 (e - 52) \<le> max_float"
  shows "rnd x = Fin (of_int m * pow2 (e - 52))"
proof (rule rnd_eqI)
  have u: "0 < pow2 (e - 52)"
    by (rule pow2_pos)
  have x: "0 < x"
    using assms(2,4) pow2_pos [of e] by linarith
  show "- 1022 \<le> e" and "\<bar>of_int m\<bar> * pow2 (e - 52) \<le> max_float"
    by fact+
  show "pow2 e \<le> \<bar>x\<bar>" and "\<bar>x\<bar> < pow2 (e + 1)"
    using assms(2-5) x by simp_all
  have "(of_int m - 1 / 2) * pow2 (e - 52) < x" and "x < (of_int m + 1 / 2) * pow2 (e - 52)"
    using assms(2,3,6,7) by linarith+
  then have "of_int m - 1 / 2 < x / pow2 (e - 52)" and "x / pow2 (e - 52) < of_int m + 1 / 2"
    using u by (simp_all add: pos_less_divide_eq pos_divide_less_eq)
  then show "\<bar>x / pow2 (e - 52) - of_int m\<bar> < 1 / 2
      \<or> \<bar>x / pow2 (e - 52) - of_int m\<bar> = 1 / 2 \<and> even m"
    by linarith
qed

lemma rnd_between_neg:
  assumes "- 1022 \<le> e" and "lo < x" and "x < hi"
    and "- pow2 (e + 1) \<le> lo" and "hi \<le> - pow2 e"
    and "(of_int m - 1 / 2) * pow2 (e - 52) \<le> lo"
    and "hi \<le> (of_int m + 1 / 2) * pow2 (e - 52)"
    and "\<bar>of_int m\<bar> * pow2 (e - 52) \<le> max_float"
  shows "rnd x = Fin (of_int m * pow2 (e - 52))"
proof (rule rnd_eqI)
  have u: "0 < pow2 (e - 52)"
    by (rule pow2_pos)
  have x: "x < 0"
    using assms(3,5) pow2_pos [of e] by linarith
  show "- 1022 \<le> e" and "\<bar>of_int m\<bar> * pow2 (e - 52) \<le> max_float"
    by fact+
  show "pow2 e \<le> \<bar>x\<bar>" and "\<bar>x\<bar> < pow2 (e + 1)"
    using assms(2-5) x by simp_all
  have "(of_int m - 1 / 2) * pow2 (e - 52) < x" and "x < (of_int m + 1 / 2) * pow2 (e - 52)"
    using assms(2,3,6,7) by linarith+
  then have "of_int m - 1 / 2 < x / pow2 (e - 52)" and "x / pow2 (e - 52) < of_int m + 1 / 2"
    using u by (simp_all add: pos_less_divide_eq pos_divide_less_eq)
  then show "\<bar>x / pow2 (e - 52) - of_int m\<bar> < 1 / 2
      \<or> \<bar>x / pow2 (e - 52) - of_int m\<bar> = 1 / 2 \<and> even m"
    by linarith
qed

lemma rnd_within:
  assumes "- 1022 \<le> e" and "lo \<le> x" and "x \<le> hi"
    and "pow2 e \<le> lo" and "hi < pow2 (e + 1)"
    and "(of_int m - 1 / 2) * pow2 (e - 52) < lo"
    and "hi < (of_int m + 1 / 2) * pow2 (e - 52)"
    and "\<bar>of_int m\<bar> * pow2 (e - 52) \<le> max_float"
  shows "rnd x = Fin (of_int m * pow2 (e - 52))"
proof (rule rnd_eqI)
  have u: "0 < pow2 (e - 52)"
    by (rule pow2_pos)
  have x: "0 < x"
    using assms(2,4) pow2_pos [of e] by linarith
  show "- 1022 \<le> e" and "\<bar>of_int m\<bar> * pow2 (e - 52) \<le> max_float"
    by fact+
  show "pow2 e \<le> \<bar>x\<bar>" and "\<bar>x\<bar> < pow2 (e + 1)"
    using assms(2-5) x by simp_all
  have "(of_int m - 1 / 2) * pow2 (e - 52) < x" and "x < (of_int m + 1 / 2) * pow2 (e - 52)"
    using assms(2,3,6,7) by linarith+
  then have "of_int m - 1 / 2 < x / pow2 (e - 52)" and "x / pow2 (e - 52) < of_int m + 1 / 2"
    using u by (simp_all add: pos_less_divide_eq pos_divide_less_eq)
  then show "\<bar>x / pow2 (e - 52) - of_int m\<bar> < 1 / 2
      \<or> \<bar>x / pow2 (e - 52) - of_int m\<bar> = 1 / 2 \<and> even m"
    by linarith
qed

lemma rnd_overflow:
  assumes "2 ^ 1024 \<le> x"
  shows "rnd x = PInf"
proof -
  define e where "e = \<lfloor>log 2 \<bar>x\<bar>\<rfloor>"
  have x: "0 < x"
    by (rule less_le_trans [OF _ assms]) simp
  have "(2::real) powr 1024 \<le> x"
    using assms by simp
  then have "1024 \<le> log 2 x"
    using x by (simp add: le_log_iff)
  then have e1024: "1024 \<le> e"
    using x by (simp add: e_def le_floor_iff)
  have be: "2 powr (of_int e) \<le> x"
    using x floor_log_eq_powr_iff [of x 2 e] by (simp add: e_def)
  define u where "u = (2::real) powr (of_int e - 52)"
  have upos: "0 < u"
    by (simp add: u_def)
  have split: "2 powr (of_int e) = 2 ^ 52 * u"
    using powr_add [of "2::real" 52 "of_int e - 52"] by (simp add: u_def)
  then have "2 ^ 52 \<le> x / u"
    using be upos by (simp add: pos_le_divide_eq)
  then have fl: "(2 ^ 52 :: real) \<le> of_int \<lfloor>x / u\<rfloor>"
    by (metis floor_mono floor_of_int of_int_le_iff of_int_numeral of_int_power)
  have "\<lfloor>x / u\<rfloor> \<le> round_even (x / u)"
    by (simp add: round_even_def Let_def)
  then have "(of_int \<lfloor>x / u\<rfloor> :: real) \<le> of_int (round_even (x / u))"
    by simp
  with fl have m: "(2 ^ 52 :: real) \<le> of_int (round_even (x / u))"
    by (rule order_trans)
  have "(2::real) ^ 1024 = 2 powr 1024"
    by simp
  also have "\<dots> \<le> 2 powr (of_int e)"
    using e1024 by (intro powr_mono) simp_all
  also have "\<dots> = 2 ^ 52 * u"
    by (rule split)
  also have "\<dots> \<le> of_int (round_even (x / u)) * u"
    using m upos by (intro mult_right_mono) simp_all
  finally have big: "2 ^ 1024 \<le> of_int (round_even (x / u)) * u" .
  have "max_float < 2 ^ 1024"
    by (simp add: max_float_def)
  with big have "max_float < \<bar>of_int (round_even (x / u)) * u\<bar>"
    by linarith
  moreover have "max (- 1022) \<lfloor>log 2 \<bar>x\<bar>\<rfloor> = e"
    using e1024 by (simp add: e_def)
  ultimately show ?thesis
    using x by (simp add: rnd_def Let_def u_def)
qed

lemma rnd_0: "rnd 0 = Fin 0"
  by (simp add: rnd_def)

subsection \<open>Enclosures of the exponential and the logarithm\<close>

lemma exp_taylor:
  fixes x :: real
  assumes "0 \<le> x" and "x \<le> 1 / 2"
  shows "(\<Sum>m<n. x ^ m / fact m) \<le> exp x"
    and "exp x \<le> (\<Sum>m<n. x ^ m / fact m) + 2 * x ^ n / fact n"
proof -
  obtain t where t: "\<bar>t\<bar> \<le> \<bar>x\<bar>"
    and e: "exp x = (\<Sum>m<n. x ^ m / fact m) + (exp t / fact n) * x ^ n"
    using Maclaurin_exp_le [of x n] by blast
  have "0 \<le> (exp t / fact n) * x ^ n"
    using assms by simp
  with e show "(\<Sum>m<n. x ^ m / fact m) \<le> exp x"
    by linarith
  have "t \<le> 1 / 2"
    using t assms by linarith
  then have "exp t \<le> exp (1 / 2)"
    by simp
  also have "exp (1 / 2 :: real) \<le> 1 + 1 / 2 + (1 / 2)\<^sup>2"
    by (rule exp_bound) simp_all
  also have "\<dots> \<le> 2"
    by (simp add: power2_eq_square)
  finally have "exp t \<le> 2" .
  then have "(exp t / fact n) * x ^ n \<le> (2 / fact n) * x ^ n"
    using assms by (intro mult_right_mono divide_right_mono) simp_all
  with e show "exp x \<le> (\<Sum>m<n. x ^ m / fact m) + 2 * x ^ n / fact n"
    by simp
qed

lemma exp_sq_lower:
  fixes x y c c' :: real
  assumes "c \<le> exp y" and "x = 2 * y" and "0 \<le> c" and "c' \<le> c * c"
  shows "c' \<le> exp x"
proof -
  have "c * c \<le> exp y * exp y"
    using assms by (intro mult_mono) simp_all
  also have "\<dots> = exp x"
    by (simp add: assms(2) exp_add [symmetric])
  finally show ?thesis
    using assms(4) by linarith
qed

lemma exp_sq_upper:
  fixes x y d d' :: real
  assumes "exp y \<le> d" and "x = 2 * y" and "d * d \<le> d'"
  shows "exp x \<le> d'"
proof -
  have "0 \<le> d"
    using assms(1) exp_ge_zero [of y] by linarith
  have "exp x = exp y * exp y"
    by (simp add: assms(2) exp_add [symmetric])
  also have "\<dots> \<le> d * d"
    using assms(1) \<open>0 \<le> d\<close> by (intro mult_mono) simp_all
  finally show ?thesis
    using assms(3) by linarith
qed

text \<open>
  From an enclosure \<open>c \<le> exp T \<le> d\<close>: the exponential a little above \<open>T\<close>, the
  exponential of \<open>- T\<close>, and the logarithm of a number close to \<open>exp T\<close> or to
  \<open>exp (- T)\<close>.
\<close>

lemma exp_above:
  fixes T u c :: real
  assumes "c \<le> exp T" and "0 \<le> c" and "0 \<le> u"
  shows "c * (1 + u) \<le> exp (T + u)"
proof -
  have "1 + u \<le> exp u"
    by (rule exp_ge_add_one_self)
  then have "c * (1 + u) \<le> exp T * exp u"
    using assms by (intro mult_mono) simp_all
  then show ?thesis
    by (simp add: exp_add)
qed

lemma exp_below:
  fixes T u d :: real
  assumes "exp T \<le> d" and "0 \<le> u"
  shows "exp (T - u) * (1 + u) \<le> d"
proof -
  have "1 + u \<le> exp u"
    by (rule exp_ge_add_one_self)
  then have "exp (T - u) * (1 + u) \<le> exp (T - u) * exp u"
    by (intro mult_left_mono) simp_all
  also have "\<dots> = exp T"
    by (simp flip: exp_add)
  finally show ?thesis
    using assms(1) by linarith
qed

lemma exp_minus_between:
  fixes T c d :: real
  assumes "c \<le> exp T" and "exp T \<le> d" and "0 < c"
  shows "1 / d \<le> exp (- T)" and "exp (- T) \<le> 1 / c"
proof -
  have e: "exp (- T) = 1 / exp T"
    by (simp add: exp_minus inverse_eq_divide)
  show "1 / d \<le> exp (- T)"
    unfolding e using assms by (intro divide_left_mono) simp_all
  show "exp (- T) \<le> 1 / c"
    unfolding e using assms by (intro divide_left_mono) simp_all
qed

lemma ln_near:
  fixes x T u c d :: real
  assumes "c \<le> exp T" and "exp T \<le> d" and "0 < c" and "0 \<le> u" and "0 < x"
    and "d < x * (1 + u)" and "x < c * (1 + u)"
  shows "T - u < ln x" and "ln x < T + u"
proof -
  have "exp (T - u) * (1 + u) < x * (1 + u)"
    using exp_below [OF assms(2,4)] assms(6) by linarith
  then have "exp (T - u) < x"
    using assms(4) by (simp add: mult_less_cancel_right)
  then have "exp (T - u) < exp (ln x)"
    using assms(5) by simp
  then show "T - u < ln x"
    by simp
  have "x < exp (T + u)"
    using exp_above [OF assms(1) _ assms(4)] assms(3,7) by linarith
  then have "exp (ln x) < exp (T + u)"
    using assms(5) by simp
  then show "ln x < T + u"
    by simp
qed

lemma ln_near_inverse:
  fixes x T u c d :: real
  assumes "c \<le> exp T" and "exp T \<le> d" and "0 < c" and "0 \<le> u" and "0 < x"
    and "x * d < 1 + u" and "1 < x * (c * (1 + u))"
  shows "- T - u < ln x" and "ln x < - T + u"
proof -
  have i: "0 < 1 / x"
    using assms(5) by simp
  have "d < (1 / x) * (1 + u)"
    using assms(5,6) by (simp add: pos_less_divide_eq mult.commute)
  moreover have "1 / x < c * (1 + u)"
    using assms(5,7) by (simp add: pos_divide_less_eq mult.commute)
  ultimately have "T - u < ln (1 / x)" and "ln (1 / x) < T + u"
    using ln_near [OF assms(1-4) i] by simp_all
  moreover have "ln (1 / x) = - ln x"
    using assms(5) by (simp add: ln_div)
  ultimately show "- T - u < ln x" and "ln x < - T + u"
    by linarith+
qed

lemma rnd_d_peak: "rnd (1 / 1000) = Fin d_peak"
  using rnd_eqI [of "- 10" "1 / 1000" "4611686018427388"]
  by (simp add: d_peak_def pow2_def max_float_def)

lemma rnd_d_final: "rnd (1 / 100000) = Fin d_final"
  using rnd_eqI [of "- 17" "1 / 100000" "5902958103587057"]
  by (simp add: d_final_def pow2_def max_float_def)

lemma rnd_d_scale: "rnd (d_final / d_peak) = Fin d_scale"
  using rnd_eqI [of "- 7" "d_final / d_peak" "5764607523034235"]
  by (simp add: d_final_def d_peak_def d_scale_def pow2_def max_float_def)

lemma rnd_d_peak_id: "rnd (d_peak) = Fin d_peak"
  using rnd_eqI [of "- 10" "d_peak" "4611686018427388"]
  by (simp add: d_peak_def pow2_def max_float_def)

lemma rnd_d_half: "rnd (d_peak / 2) = Fin (d_peak / 2)"
  using rnd_eqI [of "- 11" "d_peak / 2" "4611686018427388"]
  by (simp add: d_peak_def pow2_def max_float_def)

lemma rnd_d_decay: "rnd (- (d_log / 2)) = Fin d_decay"
  using rnd_eqI [of "1" "- (d_log / 2)" "5184960683398421"]
  by (simp add: d_log_def d_decay_def pow2_def max_float_def)

lemma rnd_d_arg: "rnd (- (d_decay * 2)) = Fin d_log"
  using rnd_eqI [of "2" "- (d_decay * 2)" "- 5184960683398421"]
  by (simp add: d_log_def d_decay_def pow2_def max_float_def)

lemma rnd_d_rate: "rnd (d_peak * d_exp) = Fin d_rate"
  using rnd_eqI [of "- 17" "d_peak * d_exp" "5902958103587059"]
  by (simp add: d_peak_def d_exp_def d_rate_def pow2_def max_float_def)

lemma rnd_d_neg: "rnd (- d_decay) = Fin (- d_decay)"
  using rnd_eqI [of "1" "- d_decay" "- 5184960683398421"]
  by (simp add: d_decay_def pow2_def max_float_def)

lemma rnd_d_rate1: "rnd (d_peak * d_exp1) = Fin d_rate1"
  using rnd_eqI [of "- 14" "d_peak * d_exp1" "7378697629483822"]
  by (simp add: d_peak_def d_exp1_def d_rate1_def pow2_def max_float_def)

lemma rnd_1: "rnd (1) = Fin 1"
  using rnd_eqI [of "0" "1" "4503599627370496"]
  by (simp add:  pow2_def max_float_def)

lemma rnd_2: "rnd (2) = Fin 2"
  using rnd_eqI [of "1" "2" "4503599627370496"]
  by (simp add:  pow2_def max_float_def)

lemma rnd_half: "rnd (1 / 2) = Fin (1 / 2)"
  using rnd_eqI [of "- 1" "1 / 2" "4503599627370496"]
  by (simp add:  pow2_def max_float_def)

lemma rnd_11: "rnd (11) = Fin 11"
  using rnd_eqI [of "3" "11" "6192449487634432"]
  by (simp add:  pow2_def max_float_def)

lemma rnd_max_float: "rnd (max_float) = Fin max_float"
  using rnd_eqI [of "1023" "max_float" "9007199254740991"]
  by (simp add:  pow2_def max_float_def)

lemma rnd_o_decay: "rnd (- (o_log / 11)) = Fin o_decay"
  using rnd_eqI [of "6" "- (o_log / 11)" "- 4540592558665716"]
  by (simp add: o_log_def o_decay_def pow2_def max_float_def)

lemma rnd_o_arg: "rnd (- (o_decay * 11)) = Fin o_arg"
  using rnd_eqI [of "9" "- (o_decay * 11)" "6243314768165360"]
  by (simp add: o_decay_def o_arg_def pow2_def max_float_def)

lemma exp_d_log:
  shows "531691198313966107759269829160074018755 / 2 ^ 122 \<le> exp (5184960683398421 / 2 ^ 50 :: real)"
    and "exp (5184960683398421 / 2 ^ 50 :: real) \<le> 531691198313966107759270308161729877119 / 2 ^ 122"
proof -
  have t: "(\<Sum>m<7. (5184960683398421 / 2 ^ 64 :: real) ^ m / fact m) \<le> exp (5184960683398421 / 2 ^ 64)"
    "exp (5184960683398421 / 2 ^ 64 :: real) \<le> (\<Sum>m<7. (5184960683398421 / 2 ^ 64) ^ m / fact m) + 2 * (5184960683398421 / 2 ^ 64) ^ 7 / fact 7"
    by (rule exp_taylor; simp)+
  have "(340378026006865498057146728817877904019 / 2 ^ 128 :: real) \<le> (\<Sum>m<7. (5184960683398421 / 2 ^ 64) ^ m / fact m)"
    by (simp add: eval_nat_numeral)
  with t(1) have l0: "340378026006865498057146728817877904019 / 2 ^ 128 \<le> exp (5184960683398421 / 2 ^ 64 :: real)"
    by linarith
  have "(\<Sum>m<7. (5184960683398421 / 2 ^ 64 :: real) ^ m / fact m) + 2 * (5184960683398421 / 2 ^ 64) ^ 7 / fact 7 \<le> 340378026006865498057146728836594166177 / 2 ^ 128"
    by (simp add: eval_nat_numeral)
  with t(2) have u0: "exp (5184960683398421 / 2 ^ 64 :: real) \<le> 340378026006865498057146728836594166177 / 2 ^ 128"
    by linarith
  have l1: "2659950874876308519082420724090382535 / 2 ^ 121 \<le> exp (5184960683398421 / 2 ^ 63 :: real)"
    by (rule exp_sq_lower [OF l0]) simp_all
  have u1: "exp (5184960683398421 / 2 ^ 63 :: real) \<le> 85118427996041872610637463180253002927 / 2 ^ 126"
    by (rule exp_sq_upper [OF u0]) simp_all
  have l2: "85166291160784235377996009047220790319 / 2 ^ 126 \<le> exp (5184960683398421 / 2 ^ 62 :: real)"
    by (rule exp_sq_lower [OF l1]) simp_all
  have u2: "exp (5184960683398421 / 2 ^ 62 :: real) \<le> 340665164643136941511984036263811365127 / 2 ^ 128"
    by (rule exp_sq_upper [OF u1]) simp_all
  have l3: "42631049123792612543035927190275692967 / 2 ^ 125 \<le> exp (5184960683398421 / 2 ^ 61 :: real)"
    by (rule exp_sq_lower [OF l2]) simp_all
  have u3: "exp (5184960683398421 / 2 ^ 61 :: real) \<le> 85262098247585225086071854418057632779 / 2 ^ 126"
    by (rule exp_sq_upper [OF u2]) simp_all
  have l4: "341816143498021799311320994085236423013 / 2 ^ 128 \<le> exp (5184960683398421 / 2 ^ 60 :: real)"
    by (rule exp_sq_lower [OF l3]) simp_all
  have u4: "exp (5184960683398421 / 2 ^ 60 :: real) \<le> 170908071749010899655660497192980927381 / 2 ^ 127"
    by (rule exp_sq_upper [OF u3]) simp_all
  have l5: "85839208341205753114464391776739337349 / 2 ^ 126 \<le> exp (5184960683398421 / 2 ^ 59 :: real)"
    by (rule exp_sq_lower [OF l4]) simp_all
  have u5: "exp (5184960683398421 / 2 ^ 59 :: real) \<le> 171678416682411506228928783855559585509 / 2 ^ 127"
    by (rule exp_sq_upper [OF u4]) simp_all
  have l6: "173229538875445791896179156740851756143 / 2 ^ 127 \<le> exp (5184960683398421 / 2 ^ 58 :: real)"
    by (rule exp_sq_lower [OF l5]) simp_all
  have u6: "exp (5184960683398421 / 2 ^ 58 :: real) \<le> 173229538875445791896179157350472206915 / 2 ^ 127"
    by (rule exp_sq_upper [OF u5]) simp_all
  have l7: "352747906516963693151589179887115539191 / 2 ^ 128 \<le> exp (5184960683398421 / 2 ^ 57 :: real)"
    by (rule exp_sq_lower [OF l6]) simp_all
  have u7: "exp (5184960683398421 / 2 ^ 57 :: real) \<le> 352747906516963693151589182369859985385 / 2 ^ 128"
    by (rule exp_sq_upper [OF u6]) simp_all
  have l8: "365670095332947405835659475599255324807 / 2 ^ 128 \<le> exp (5184960683398421 / 2 ^ 56 :: real)"
    by (rule exp_sq_lower [OF l7]) simp_all
  have u8: "exp (5184960683398421 / 2 ^ 56 :: real) \<le> 365670095332947405835659480746644616449 / 2 ^ 128"
    by (rule exp_sq_upper [OF u7]) simp_all
  have l9: "196475973513893872837360114228330623063 / 2 ^ 127 \<le> exp (5184960683398421 / 2 ^ 55 :: real)"
    by (rule exp_sq_lower [OF l8]) simp_all
  have u9: "exp (5184960683398421 / 2 ^ 55 :: real) \<le> 196475973513893872837360119759755451279 / 2 ^ 127"
    by (rule exp_sq_upper [OF u8]) simp_all
  have l10: "453773829276335563737018030991363489433 / 2 ^ 128 \<le> exp (5184960683398421 / 2 ^ 54 :: real)"
    by (rule exp_sq_lower [OF l9]) simp_all
  have u10: "exp (5184960683398421 / 2 ^ 54 :: real) \<le> 226886914638167781868509028270861227293 / 2 ^ 127"
    by (rule exp_sq_upper [OF u9]) simp_all
  have l11: "605117126694814676039683398879272669517 / 2 ^ 128 \<le> exp (5184960683398421 / 2 ^ 53 :: real)"
    by (rule exp_sq_lower [OF l10]) simp_all
  have u11: "exp (5184960683398421 / 2 ^ 53 :: real) \<le> 302558563347407338019841733511587614257 / 2 ^ 127"
    by (rule exp_sq_upper [OF u10]) simp_all
  have l12: "538033663531651542368576737812063573561 / 2 ^ 127 \<le> exp (5184960683398421 / 2 ^ 52 :: real)"
    by (rule exp_sq_lower [OF l11]) simp_all
  have u12: "exp (5184960683398421 / 2 ^ 52 :: real) \<le> 538033663531651542368576858990962413925 / 2 ^ 127"
    by (rule exp_sq_upper [OF u11]) simp_all
  have l13: "26584559915698311423019816331804611209 / 2 ^ 121 \<le> exp (5184960683398421 / 2 ^ 51 :: real)"
    by (rule exp_sq_lower [OF l12]) simp_all
  have u13: "exp (5184960683398421 / 2 ^ 51 :: real) \<le> 425352958651172982768317252909536122689 / 2 ^ 125"
    by (rule exp_sq_upper [OF u12]) simp_all
  have l14: "531691198313966107759269829160074018755 / 2 ^ 122 \<le> exp (5184960683398421 / 2 ^ 50 :: real)"
    by (rule exp_sq_lower [OF l13]) simp_all
  have u14: "exp (5184960683398421 / 2 ^ 50 :: real) \<le> 531691198313966107759270308161729877119 / 2 ^ 122"
    by (rule exp_sq_upper [OF u13]) simp_all
  show "531691198313966107759269829160074018755 / 2 ^ 122 \<le> exp (5184960683398421 / 2 ^ 50 :: real)"
    by (rule l14)
  show "exp (5184960683398421 / 2 ^ 50 :: real) \<le> 531691198313966107759270308161729877119 / 2 ^ 122"
    by (rule u14)
qed

lemma exp_o_log:
  shows "680564733841860765520004008973381333073 * 2 ^ 895 \<le> exp (6243314768165359 / 2 ^ 43 :: real)"
    and "exp (6243314768165359 / 2 ^ 43 :: real) \<le> 680564733841860765538430955237928114223 * 2 ^ 895"
proof -
  have t: "(\<Sum>m<7. (6243314768165359 / 2 ^ 63 :: real) ^ m / fact m) \<le> exp (6243314768165359 / 2 ^ 63)"
    "exp (6243314768165359 / 2 ^ 63 :: real) \<le> (\<Sum>m<7. (6243314768165359 / 2 ^ 63) ^ m / fact m) + 2 * (6243314768165359 / 2 ^ 63) ^ 7 / fact 7"
    by (rule exp_taylor; simp)+
  have "(340512782555889898801147986193669049431 / 2 ^ 128 :: real) \<le> (\<Sum>m<7. (6243314768165359 / 2 ^ 63) ^ m / fact m)"
    by (simp add: eval_nat_numeral)
  with t(1) have l0: "340512782555889898801147986193669049431 / 2 ^ 128 \<le> exp (6243314768165359 / 2 ^ 63 :: real)"
    by linarith
  have "(\<Sum>m<7. (6243314768165359 / 2 ^ 63 :: real) ^ m / fact m) + 2 * (6243314768165359 / 2 ^ 63) ^ 7 / fact 7 \<le> 340512782555889898801147994986271452805 / 2 ^ 128"
    by (simp add: eval_nat_numeral)
  with t(2) have u0: "exp (6243314768165359 / 2 ^ 63 :: real) \<le> 340512782555889898801147994986271452805 / 2 ^ 128"
    by linarith
  have l1: "340743354212339922128963888837082967641 / 2 ^ 128 \<le> exp (6243314768165359 / 2 ^ 62 :: real)"
    by (rule exp_sq_lower [OF l0]) simp_all
  have u1: "exp (6243314768165359 / 2 ^ 62 :: real) \<le> 85185838553084980532240976608548814077 / 2 ^ 126"
    by (rule exp_sq_upper [OF u0]) simp_all
  have l2: "42650620751549381429085036612363774103 / 2 ^ 125 \<le> exp (6243314768165359 / 2 ^ 61 :: real)"
    by (rule exp_sq_lower [OF l1]) simp_all
  have u2: "exp (6243314768165359 / 2 ^ 61 :: real) \<le> 170602483006197525716340164070406543141 / 2 ^ 127"
    by (rule exp_sq_upper [OF u1]) simp_all
  have l3: "171065033261874822564947961638034389831 / 2 ^ 127 \<le> exp (6243314768165359 / 2 ^ 60 :: real)"
    by (rule exp_sq_lower [OF l2]) simp_all
  have u3: "exp (6243314768165359 / 2 ^ 60 :: real) \<le> 85532516630937411282473998487743887663 / 2 ^ 126"
    by (rule exp_sq_upper [OF u2]) simp_all
  have l4: "171993899476345128281214910922148649361 / 2 ^ 127 \<le> exp (6243314768165359 / 2 ^ 59 :: real)"
    by (rule exp_sq_lower [OF l3]) simp_all
  have u4: "exp (6243314768165359 / 2 ^ 59 :: real) \<le> 343987798952690256562429963961626350549 / 2 ^ 128"
    by (rule exp_sq_upper [OF u3]) simp_all
  have l5: "347733580493780928556812115513856347899 / 2 ^ 128 \<le> exp (6243314768165359 / 2 ^ 58 :: real)"
    by (rule exp_sq_lower [OF l4]) simp_all
  have u5: "exp (6243314768165359 / 2 ^ 58 :: real) \<le> 86933395123445232139203100710906737363 / 2 ^ 126"
    by (rule exp_sq_upper [OF u4]) simp_all
  have l6: "355347954397881496954650688258367784259 / 2 ^ 128 \<le> exp (6243314768165359 / 2 ^ 57 :: real)"
    by (rule exp_sq_lower [OF l5]) simp_all
  have u6: "exp (6243314768165359 / 2 ^ 57 :: real) \<le> 355347954397881496954651275501314386597 / 2 ^ 128"
    by (rule exp_sq_upper [OF u5]) simp_all
  have l7: "185540276208459938457281032587917633655 / 2 ^ 127 \<le> exp (6243314768165359 / 2 ^ 56 :: real)"
    by (rule exp_sq_lower [OF l6]) simp_all
  have u7: "exp (6243314768165359 / 2 ^ 56 :: real) \<le> 371080552416919876914563291660661371797 / 2 ^ 128"
    by (rule exp_sq_upper [OF u6]) simp_all
  have l8: "404666211852346591904892242884281237299 / 2 ^ 128 \<le> exp (6243314768165359 / 2 ^ 55 :: real)"
    by (rule exp_sq_lower [OF l7]) simp_all
  have u8: "exp (6243314768165359 / 2 ^ 55 :: real) \<le> 202333105926173295952447458933327482197 / 2 ^ 127"
    by (rule exp_sq_upper [OF u7]) simp_all
  have l9: "481231938336009017510067396981993174661 / 2 ^ 128 \<le> exp (6243314768165359 / 2 ^ 54 :: real)"
    by (rule exp_sq_lower [OF l8]) simp_all
  have u9: "exp (6243314768165359 / 2 ^ 54 :: real) \<le> 60153992292001127188759219899766982615 / 2 ^ 125"
    by (rule exp_sq_upper [OF u8]) simp_all
  have l10: "680564733841876911144125440248222105935 / 2 ^ 128 \<le> exp (6243314768165359 / 2 ^ 53 :: real)"
    by (rule exp_sq_lower [OF l9]) simp_all
  have u10: "exp (6243314768165359 / 2 ^ 53 :: real) \<le> 680564733841876911144143435312933577827 / 2 ^ 128"
    by (rule exp_sq_upper [OF u9]) simp_all
  have l11: "170141183460469223840375416408227038741 / 2 ^ 125 \<le> exp (6243314768165359 / 2 ^ 52 :: real)"
    by (rule exp_sq_lower [OF l10]) simp_all
  have u11: "exp (6243314768165359 / 2 ^ 52 :: real) \<le> 170141183460469223840384413940582774687 / 2 ^ 125"
    by (rule exp_sq_upper [OF u10]) simp_all
  have l12: "340282366920938431898127058201140675521 / 2 ^ 124 \<le> exp (6243314768165359 / 2 ^ 51 :: real)"
    by (rule exp_sq_lower [OF l11]) simp_all
  have u12: "exp (6243314768165359 / 2 ^ 51 :: real) \<le> 42535295865117303987270381041320452413 / 2 ^ 121"
    by (rule exp_sq_upper [OF u11]) simp_all
  have l13: "340282366920938400332879508970516067639 / 2 ^ 120 \<le> exp (6243314768165359 / 2 ^ 50 :: real)"
    by (rule exp_sq_lower [OF l12]) simp_all
  have u13: "exp (6243314768165359 / 2 ^ 50 :: real) \<le> 680564733841876800665902978458723910397 / 2 ^ 121"
    by (rule exp_sq_upper [OF u12]) simp_all
  have l14: "680564733841876674404768821018551272069 / 2 ^ 113 \<le> exp (6243314768165359 / 2 ^ 49 :: real)"
    by (rule exp_sq_lower [OF l13]) simp_all
  have u14: "exp (6243314768165359 / 2 ^ 49 :: real) \<le> 340282366920938337202528371026967411127 / 2 ^ 112"
    by (rule exp_sq_upper [OF u13]) simp_all
  have l15: "340282366920938210941394213586829909463 / 2 ^ 96 \<le> exp (6243314768165359 / 2 ^ 48 :: real)"
    by (rule exp_sq_lower [OF l14]) simp_all
  have u15: "exp (6243314768165359 / 2 ^ 48 :: real) \<le> 680564733841876421883364269244426919083 / 2 ^ 97"
    by (rule exp_sq_upper [OF u14]) simp_all
  have l16: "680564733841875916838827639484158005741 / 2 ^ 65 \<le> exp (6243314768165359 / 2 ^ 47 :: real)"
    by (rule exp_sq_lower [OF l15]) simp_all
  have u16: "exp (6243314768165359 / 2 ^ 47 :: real) \<le> 340282366920937958419989661812846102601 / 2 ^ 64"
    by (rule exp_sq_upper [OF u15]) simp_all
  have l17: "680564733841874906750906064106278751777 / 2 ^ 1 \<le> exp (6243314768165359 / 2 ^ 46 :: real)"
    by (rule exp_sq_lower [OF l16]) simp_all
  have u17: "exp (6243314768165359 / 2 ^ 46 :: real) \<le> 680564733841874906753209432389347147281 / 2 ^ 1"
    by (rule exp_sq_upper [OF u16]) simp_all
  have l18: "21267647932558527705470716042344304171 * 2 ^ 132 \<le> exp (6243314768165359 / 2 ^ 45 :: real)"
    by (rule exp_sq_lower [OF l17]) simp_all
  have u18: "exp (6243314768165359 / 2 ^ 45 :: real) \<le> 340282366920936443289834824960577255403 * 2 ^ 128"
    by (rule exp_sq_upper [OF u17]) simp_all
  have l19: "85070591730233605777922076483810706919 * 2 ^ 386 \<le> exp (6243314768165359 / 2 ^ 44 :: real)"
    by (rule exp_sq_lower [OF l18]) simp_all
  have u19: "exp (6243314768165359 / 2 ^ 44 :: real) \<le> 680564733841868846232590085002759155323 * 2 ^ 383"
    by (rule exp_sq_upper [OF u18]) simp_all
  have l20: "680564733841860765520004008973381333073 * 2 ^ 895 \<le> exp (6243314768165359 / 2 ^ 43 :: real)"
    by (rule exp_sq_lower [OF l19]) simp_all
  have u20: "exp (6243314768165359 / 2 ^ 43 :: real) \<le> 680564733841860765538430955237928114223 * 2 ^ 895"
    by (rule exp_sq_upper [OF u19]) simp_all
  show "680564733841860765520004008973381333073 * 2 ^ 895 \<le> exp (6243314768165359 / 2 ^ 43 :: real)"
    by (rule l20)
  show "exp (6243314768165359 / 2 ^ 43 :: real) \<le> 680564733841860765538430955237928114223 * 2 ^ 895"
    by (rule u20)
qed

lemma exp_d_decay:
  shows "26584559915698311423019816331804611209 / 2 ^ 121 \<le> exp (5184960683398421 / 2 ^ 51 :: real)"
    and "exp (5184960683398421 / 2 ^ 51 :: real) \<le> 425352958651172982768317252909536122689 / 2 ^ 125"
proof -
  have t: "(\<Sum>m<7. (5184960683398421 / 2 ^ 64 :: real) ^ m / fact m) \<le> exp (5184960683398421 / 2 ^ 64)"
    "exp (5184960683398421 / 2 ^ 64 :: real) \<le> (\<Sum>m<7. (5184960683398421 / 2 ^ 64) ^ m / fact m) + 2 * (5184960683398421 / 2 ^ 64) ^ 7 / fact 7"
    by (rule exp_taylor; simp)+
  have "(340378026006865498057146728817877904019 / 2 ^ 128 :: real) \<le> (\<Sum>m<7. (5184960683398421 / 2 ^ 64) ^ m / fact m)"
    by (simp add: eval_nat_numeral)
  with t(1) have l0: "340378026006865498057146728817877904019 / 2 ^ 128 \<le> exp (5184960683398421 / 2 ^ 64 :: real)"
    by linarith
  have "(\<Sum>m<7. (5184960683398421 / 2 ^ 64 :: real) ^ m / fact m) + 2 * (5184960683398421 / 2 ^ 64) ^ 7 / fact 7 \<le> 340378026006865498057146728836594166177 / 2 ^ 128"
    by (simp add: eval_nat_numeral)
  with t(2) have u0: "exp (5184960683398421 / 2 ^ 64 :: real) \<le> 340378026006865498057146728836594166177 / 2 ^ 128"
    by linarith
  have l1: "2659950874876308519082420724090382535 / 2 ^ 121 \<le> exp (5184960683398421 / 2 ^ 63 :: real)"
    by (rule exp_sq_lower [OF l0]) simp_all
  have u1: "exp (5184960683398421 / 2 ^ 63 :: real) \<le> 85118427996041872610637463180253002927 / 2 ^ 126"
    by (rule exp_sq_upper [OF u0]) simp_all
  have l2: "85166291160784235377996009047220790319 / 2 ^ 126 \<le> exp (5184960683398421 / 2 ^ 62 :: real)"
    by (rule exp_sq_lower [OF l1]) simp_all
  have u2: "exp (5184960683398421 / 2 ^ 62 :: real) \<le> 340665164643136941511984036263811365127 / 2 ^ 128"
    by (rule exp_sq_upper [OF u1]) simp_all
  have l3: "42631049123792612543035927190275692967 / 2 ^ 125 \<le> exp (5184960683398421 / 2 ^ 61 :: real)"
    by (rule exp_sq_lower [OF l2]) simp_all
  have u3: "exp (5184960683398421 / 2 ^ 61 :: real) \<le> 85262098247585225086071854418057632779 / 2 ^ 126"
    by (rule exp_sq_upper [OF u2]) simp_all
  have l4: "341816143498021799311320994085236423013 / 2 ^ 128 \<le> exp (5184960683398421 / 2 ^ 60 :: real)"
    by (rule exp_sq_lower [OF l3]) simp_all
  have u4: "exp (5184960683398421 / 2 ^ 60 :: real) \<le> 170908071749010899655660497192980927381 / 2 ^ 127"
    by (rule exp_sq_upper [OF u3]) simp_all
  have l5: "85839208341205753114464391776739337349 / 2 ^ 126 \<le> exp (5184960683398421 / 2 ^ 59 :: real)"
    by (rule exp_sq_lower [OF l4]) simp_all
  have u5: "exp (5184960683398421 / 2 ^ 59 :: real) \<le> 171678416682411506228928783855559585509 / 2 ^ 127"
    by (rule exp_sq_upper [OF u4]) simp_all
  have l6: "173229538875445791896179156740851756143 / 2 ^ 127 \<le> exp (5184960683398421 / 2 ^ 58 :: real)"
    by (rule exp_sq_lower [OF l5]) simp_all
  have u6: "exp (5184960683398421 / 2 ^ 58 :: real) \<le> 173229538875445791896179157350472206915 / 2 ^ 127"
    by (rule exp_sq_upper [OF u5]) simp_all
  have l7: "352747906516963693151589179887115539191 / 2 ^ 128 \<le> exp (5184960683398421 / 2 ^ 57 :: real)"
    by (rule exp_sq_lower [OF l6]) simp_all
  have u7: "exp (5184960683398421 / 2 ^ 57 :: real) \<le> 352747906516963693151589182369859985385 / 2 ^ 128"
    by (rule exp_sq_upper [OF u6]) simp_all
  have l8: "365670095332947405835659475599255324807 / 2 ^ 128 \<le> exp (5184960683398421 / 2 ^ 56 :: real)"
    by (rule exp_sq_lower [OF l7]) simp_all
  have u8: "exp (5184960683398421 / 2 ^ 56 :: real) \<le> 365670095332947405835659480746644616449 / 2 ^ 128"
    by (rule exp_sq_upper [OF u7]) simp_all
  have l9: "196475973513893872837360114228330623063 / 2 ^ 127 \<le> exp (5184960683398421 / 2 ^ 55 :: real)"
    by (rule exp_sq_lower [OF l8]) simp_all
  have u9: "exp (5184960683398421 / 2 ^ 55 :: real) \<le> 196475973513893872837360119759755451279 / 2 ^ 127"
    by (rule exp_sq_upper [OF u8]) simp_all
  have l10: "453773829276335563737018030991363489433 / 2 ^ 128 \<le> exp (5184960683398421 / 2 ^ 54 :: real)"
    by (rule exp_sq_lower [OF l9]) simp_all
  have u10: "exp (5184960683398421 / 2 ^ 54 :: real) \<le> 226886914638167781868509028270861227293 / 2 ^ 127"
    by (rule exp_sq_upper [OF u9]) simp_all
  have l11: "605117126694814676039683398879272669517 / 2 ^ 128 \<le> exp (5184960683398421 / 2 ^ 53 :: real)"
    by (rule exp_sq_lower [OF l10]) simp_all
  have u11: "exp (5184960683398421 / 2 ^ 53 :: real) \<le> 302558563347407338019841733511587614257 / 2 ^ 127"
    by (rule exp_sq_upper [OF u10]) simp_all
  have l12: "538033663531651542368576737812063573561 / 2 ^ 127 \<le> exp (5184960683398421 / 2 ^ 52 :: real)"
    by (rule exp_sq_lower [OF l11]) simp_all
  have u12: "exp (5184960683398421 / 2 ^ 52 :: real) \<le> 538033663531651542368576858990962413925 / 2 ^ 127"
    by (rule exp_sq_upper [OF u11]) simp_all
  have l13: "26584559915698311423019816331804611209 / 2 ^ 121 \<le> exp (5184960683398421 / 2 ^ 51 :: real)"
    by (rule exp_sq_lower [OF l12]) simp_all
  have u13: "exp (5184960683398421 / 2 ^ 51 :: real) \<le> 425352958651172982768317252909536122689 / 2 ^ 125"
    by (rule exp_sq_upper [OF u12]) simp_all
  show "26584559915698311423019816331804611209 / 2 ^ 121 \<le> exp (5184960683398421 / 2 ^ 51 :: real)"
    by (rule l13)
  show "exp (5184960683398421 / 2 ^ 51 :: real) \<le> 425352958651172982768317252909536122689 / 2 ^ 125"
    by (rule u13)
qed

lemma rnd_d_log: "rnd (ln d_scale) = Fin d_log"
proof -
  have b: "- (5184960683398421 / 2 ^ 50) - 1 / 2 ^ 51 < ln d_scale"
    "ln d_scale < - (5184960683398421 / 2 ^ 50) + 1 / 2 ^ 51"
    by (rule ln_near_inverse [OF exp_d_log, where u = "1 / 2 ^ 51" and x = d_scale];
        simp add: d_scale_def)+
  show ?thesis
    using rnd_between_neg [OF _ b, of 2 "- 5184960683398421"]
    by (simp add: d_log_def pow2_def max_float_def)
qed

lemma rnd_d_exp: "rnd (exp d_log) = Fin d_exp"
proof -
  have b: "1 / (531691198313966107759270308161729877119 / 2 ^ 122) \<le> exp (- (5184960683398421 / 2 ^ 50 :: real))"
    "exp (- (5184960683398421 / 2 ^ 50 :: real)) \<le> 1 / (531691198313966107759269829160074018755 / 2 ^ 122)"
    by (rule exp_minus_between [OF exp_d_log]; simp)+
  show ?thesis
    using rnd_within [OF _ b, of "- 7" "5764607523034237"]
    by (simp add: d_log_def d_exp_def pow2_def max_float_def)
qed

lemma rnd_d_exp1: "rnd (exp (- d_decay)) = Fin d_exp1"
proof -
  have b: "1 / (425352958651172982768317252909536122689 / 2 ^ 125) \<le> exp (- (5184960683398421 / 2 ^ 51 :: real))"
    "exp (- (5184960683398421 / 2 ^ 51 :: real)) \<le> 1 / (26584559915698311423019816331804611209 / 2 ^ 121)"
    by (rule exp_minus_between [OF exp_d_decay]; simp)+
  show ?thesis
    using rnd_within [OF _ b, of "- 4" "7205759403792795"]
    by (simp add: d_decay_def d_exp1_def pow2_def max_float_def)
qed

lemma rnd_o_log: "rnd (ln max_float) = Fin o_log"
proof -
  have b: "6243314768165359 / 2 ^ 43 - 1 / 2 ^ 44 < ln max_float"
    "ln max_float < 6243314768165359 / 2 ^ 43 + 1 / 2 ^ 44"
    by (rule ln_near [OF exp_o_log, where u = "1 / 2 ^ 44" and x = max_float];
        simp add: max_float_def)+
  show ?thesis
    using rnd_between [OF _ b, of 9 "6243314768165359"]
    by (simp add: o_log_def pow2_def max_float_def)
qed

lemma rnd_o_exp: "rnd (exp o_arg) = PInf"
proof -
  have a: "680564733841860765520004008973381333073 * 2 ^ 895 * (1 + 1 / 2 ^ 43) \<le> exp (6243314768165359 / 2 ^ 43 + 1 / 2 ^ 43 :: real)"
    by (rule exp_above [OF exp_o_log(1)]) simp_all
  have b: "(2 ^ 1024 :: real) \<le> 680564733841860765520004008973381333073 * 2 ^ 895 * (1 + 1 / 2 ^ 43)"
    by simp
  have e: "o_arg = 6243314768165359 / 2 ^ 43 + 1 / 2 ^ 43"
    by (simp add: o_arg_def)
  have "2 ^ 1024 \<le> exp o_arg"
    unfolding e using b a by (rule order_trans)
  then show ?thesis
    by (rule rnd_overflow)
qed

subsection \<open>The examples, evaluated\<close>

lemma d_pos: "d_peak \<noteq> 0" "\<not> d_scale \<le> 0" "\<not> max_float \<le> 0" "0 < max_float"
  by (simp_all add: d_peak_def d_scale_def max_float_def)

lemmas rnd_values =
  rnd_0 rnd_1 rnd_2 rnd_half rnd_11 rnd_max_float
  rnd_d_peak rnd_d_final rnd_d_scale rnd_d_peak_id rnd_d_half rnd_d_log rnd_d_decay
  rnd_d_arg rnd_d_neg rnd_d_exp rnd_d_exp1 rnd_d_rate rnd_d_rate1
  rnd_o_log rnd_o_decay rnd_o_arg rnd_o_exp

lemma init64_example: "init64 example_optimizer64 example_args = Inr example64"
  by (simp add: init64_def example_args_def default_args_def example64_def and_then_def Let_def
      of_int_f_def fsub_def rnd_values d_pos)

lemma init64_overflow: "init64 example_optimizer64 overflow_args = Inr overflow64"
  by (simp add: init64_def overflow_args_def default_args_def overflow64_def and_then_def Let_def
      of_int_f_def fsub_def rnd_values d_pos)

lemma example_bound_rate: "stage_lr64 example64 2 2 = Inr (Fin d_rate)"
  by (simp add: stage_lr64_def example64_def and_then_def of_int_f_def rnd_values Let_def)

lemma overflow_bound_rate: "stage_lr64 overflow64 2 11 = Inl OverflowError"
  by (simp add: stage_lr64_def overflow64_def and_then_def of_int_f_def rnd_values Let_def)


lemma example_run64:
  "\<exists>s. run64 6 example64 =
     Inr (s, [Fin 0, Fin (d_peak / 2), Fin d_peak, Fin d_peak, Fin d_rate1, Fin d_rate])"
  by (simp add: eval_nat_numeral step64_def decide_stage_def
      stage_lr64_def set_lr_def read_lrs_set example64_def and_then_def of_int_f_def rnd_values Let_def)


lemma overflow_rates64: "rates64 example_optimizer64 overflow_args 12 = Inl OverflowError"
proof (cases "run64 11 overflow64")
  case (Inl raised)
  obtain e t where raised: "raised = (e, t)"
    by (cases raised)
  have "e = OverflowError"
    using run64_error [of 11 overflow64 e t] Inl raised by simp
  moreover have "run64 (11 + 1) overflow64 = Inl raised"
    unfolding run64_add [of 11 1 overflow64] Inl by simp
  ultimately show ?thesis
    using raised by (simp add: rates64_def init64_overflow)
next
  case (Inr p)
  obtain t xs where p: "p = (t, xs)"
    by (cases p)
  note k = run64_keep [OF Inr [unfolded p]]
  have "decide_stage t = (2, 11)"
    using k by (simp add: decide_stage_def overflow64_def)
  moreover have "stage_lr64 t 2 11 = stage_lr64 overflow64 2 11"
    using k by (simp add: stage_lr64_cong [of t overflow64])
  ultimately have "stage_lr64 t (fst (decide_stage t)) (snd (decide_stage t)) = Inl OverflowError"
    by (simp add: overflow_bound_rate)
  then have "step64 None t = Inl (OverflowError, t)"
    by (rule step64_raise)
  then have "run64 1 t = Inl (OverflowError, t)"
    by simp
  then have "run64 (11 + 1) overflow64 = Inl (OverflowError, t)"
    unfolding run64_add [of 11 1 overflow64] Inr p by simp
  then show ?thesis
    by (simp add: rates64_def init64_overflow)
qed

section \<open>The stage decision\<close>

text \<open>
  C1. The stage decision depends on \<^verbatim>\<open>update_steps\<close> and the three phase lengths only.
  With phase lengths that are not negative, it returns WARMUP and the step count below
  \<^verbatim>\<open>warmup_steps\<close>; HOLD and the count less \<^verbatim>\<open>warmup_steps\<close> from there up to, and
  without, \<^verbatim>\<open>warmup_steps + hold_steps\<close>; DECAY and the count less the two lengths from
  there up to \<^verbatim>\<open>warmup_steps + hold_steps + decay_steps\<close>, that bound included, where the
  offset is \<^verbatim>\<open>decay_steps\<close>; FINAL and the count less the three lengths above it.
  The hypotheses on the lengths are used by the DECAY and FINAL cases alone.
\<close>

theorem decide_stage_cases:
  assumes "0 \<le> hold_steps s" and "0 \<le> decay_steps s"
  shows "(update_steps s < warmup_steps s \<longrightarrow>
            decide_stage s = (WARMUP, update_steps s))
       \<and> (warmup_steps s \<le> update_steps s
            \<and> update_steps s < warmup_steps s + hold_steps s \<longrightarrow>
            decide_stage s = (HOLD, update_steps s - warmup_steps s))
       \<and> (warmup_steps s + hold_steps s \<le> update_steps s
            \<and> update_steps s \<le> warmup_steps s + hold_steps s + decay_steps s \<longrightarrow>
            decide_stage s = (DECAY, update_steps s - warmup_steps s - hold_steps s))
       \<and> (update_steps s = warmup_steps s + hold_steps s + decay_steps s \<longrightarrow>
            decide_stage s = (DECAY, decay_steps s))
       \<and> (warmup_steps s + hold_steps s + decay_steps s < update_steps s \<longrightarrow>
            decide_stage s =
              (FINAL, update_steps s - warmup_steps s - hold_steps s - decay_steps s))"
  using assms by (auto simp: decide_stage_def Let_def)

theorem decide_stage_cases_witness:
  "decide_stage (example_at 1) = (WARMUP, 1)
   \<and> decide_stage (example_at 2) = (HOLD, 0)
   \<and> decide_stage (example_at 4) = (DECAY, 1)
   \<and> decide_stage (example_at 5) = (DECAY, 2)
   \<and> decide_stage (example_at 6) = (FINAL, 1)"
  using decide_stage_cases [of "example_at 1"] decide_stage_cases [of "example_at 2"]
    decide_stage_cases [of "example_at 4"] decide_stage_cases [of "example_at 5"]
    decide_stage_cases [of "example_at 6"]
  by (simp add: example_at_def example_scheduler_def)

section \<open>The rate of a call\<close>



section \<open>Construction\<close>

text \<open>
  C3. The constructor evaluated on two configurations that break none of its assertions.
  With \<^verbatim>\<open>peak_lr=1e-3, final_lr=1e-5, warmup_steps=2, hold_steps=1\<close> and
  \<^verbatim>\<open>decay_steps\<close> left at 0, the division by \<^verbatim>\<open>decay_steps\<close> in the decay factor
  raises \<^verbatim>\<open>ZeroDivisionError\<close>. With \<^verbatim>\<open>peak_lr=1e-3, warmup_steps=2, hold_steps=1,
  decay_steps=2\<close> and \<^verbatim>\<open>final_lr\<close> left at its default 0, \<^verbatim>\<open>math.log\<close> is applied to
  0 and raises \<^verbatim>\<open>ValueError\<close>. Neither construction returns an object.
\<close>

theorem init_raises_outside_assertions:
  "init opt ((default_args (1 / 1000))
               \<lparr> arg_final_lr := 1 / 100000,
                 arg_warmup_steps := 2,
                 arg_hold_steps := 1 \<rparr>) = Inl ZeroDivisionError
   \<and> init opt ((default_args (1 / 1000))
                 \<lparr> arg_warmup_steps := 2,
                   arg_hold_steps := 1,
                   arg_decay_steps := 2 \<rparr>) = Inl ValueError"
  by (simp add: init_def default_args_def)

section \<open>The example schedule\<close>

text \<open>
  C4, as the code computes it. For \<^verbatim>\<open>peak_lr=1e-3, init_lr=0, final_lr=1e-5,
  warmup_steps=2, hold_steps=1, decay_steps=2\<close> and any optimizer, the six calls on the
  fresh object are decided and answered as follows: WARMUP at offsets 0 and 1 with the
  rates 0 and 5e-4, HOLD with 1e-3, and DECAY at the offsets \<open>k = 0, 1, 2\<close> with
  \<^verbatim>\<open>1e-3 * exp(-decay_factor * k)\<close>, where \<^verbatim>\<open>decay_factor = -ln(1e-5/1e-3)/2\<close>. The
  decay stage starts at offset 0, so the fourth rate is still the peak rate, the fifth has
  offset 1, and the sixth call is still in the decay stage, at the bound
  \<^verbatim>\<open>decay_steps\<close>.
\<close>

theorem example_rates:
  "\<exists>s0 s1 s2 s3 s4 s5 s6.
     init opt example_args = Inr s0
     \<and> decide_stage s0 = (WARMUP, 0) \<and> step None s0 = Inr (s1, 0)
     \<and> decide_stage s1 = (WARMUP, 1) \<and> step None s1 = Inr (s2, 1 / 2000)
     \<and> decide_stage s2 = (HOLD, 0) \<and> step None s2 = Inr (s3, 1 / 1000)
     \<and> decide_stage s3 = (DECAY, 0)
     \<and> step None s3 =
           Inr (s4, 1 / 1000 * exp (- (- ln ((1 / 100000) / (1 / 1000)) / 2) * 0))
     \<and> decide_stage s4 = (DECAY, 1)
     \<and> step None s4 =
           Inr (s5, 1 / 1000 * exp (- (- ln ((1 / 100000) / (1 / 1000)) / 2) * 1))
     \<and> decide_stage s5 = (DECAY, 2)
     \<and> step None s5 =
           Inr (s6, 1 / 1000 * exp (- (- ln ((1 / 100000) / (1 / 1000)) / 2) * 2))
     \<and> rates opt example_args 6 =
           Inr [0,
                1 / 2000,
                1 / 1000,
                1 / 1000 * exp (- (- ln ((1 / 100000) / (1 / 1000)) / 2) * 0),
                1 / 1000 * exp (- (- ln ((1 / 100000) / (1 / 1000)) / 2) * 1),
                1 / 1000 * exp (- (- ln ((1 / 100000) / (1 / 1000)) / 2) * 2)]"
  by (simp add: rates_def init_def example_args_def default_args_def eval_nat_numeral
      step_def decide_stage_def stage_lr_def set_lr_def read_lrs_set)

text \<open>
  C4, as the specification states it. The sequence it gives, in both readings of its
  fifth entry, is not the one the code returns: its fourth entry is the decay value at offset 1, where the code
  returns the peak rate, the decay value at offset 0.
\<close>

theorem claimed_rates_refuted:
  "rates example_optimizer example_args 6 \<noteq>
     Inr [0,
          1 / 2000,
          1 / 1000,
          1 / 1000 * exp (- (- ln ((1 / 100000) / (1 / 1000)) / 2) * 1),
          1 / 100000,
          1 / 100000]
   \<and> rates example_optimizer example_args 6 \<noteq>
     Inr [0,
          1 / 2000,
          1 / 1000,
          1 / 1000 * exp (- (- ln ((1 / 100000) / (1 / 1000)) / 2) * 1),
          1 / 1000 * exp (- (- ln ((1 / 100000) / (1 / 1000)) / 2) * 2),
          1 / 100000]"
proof -
  have "ln (1 / 100 :: real) < 0"
    by simp
  then have "exp (ln (1 / 100 :: real) / 2) < 1"
    by simp
  then have ne: "exp (ln (1 / 100 :: real) / 2) \<noteq> 1"
    by simp
  have fourth: "\<exists>rs. rates example_optimizer example_args 6 = Inr rs \<and> rs ! 3 = 1 / 1000"
    by (simp add: rates_def init_example eval_nat_numeral step_def decide_stage_def
        stage_lr_def set_lr_def read_lrs_set example_scheduler_def)
  from fourth ne show ?thesis
    by auto
qed

section \<open>The rates past the decay stage\<close>




section \<open>The optimizer after a call\<close>

text \<open>
  C6. After a call to \<^verbatim>\<open>step()\<close> that returns the rate \<open>r\<close>, every parameter group of
  the optimizer has \<open>r\<close> under \<^verbatim>\<open>'lr'\<close>; the groups are as many as before; with at
  least one group \<^verbatim>\<open>get_lr()\<close> returns \<open>r\<close>; and \<^verbatim>\<open>get_last_lr()\<close> returns the list
  with one entry \<open>r\<close> per group. \<^verbatim>\<open>get_lr()\<close> reads the optimizer's first group and
  nothing else: it is the same on every object \<open>t\<close> bound to that optimizer, whatever
  the fields of \<open>t\<close> are, the field \<^verbatim>\<open>lr\<close> among them; and after a write of \<open>x\<close> to the
  first group from outside it returns \<open>x\<close>, while the field \<^verbatim>\<open>lr\<close> and the snapshot
  \<^verbatim>\<open>_last_lr\<close> are still \<open>r\<close>.
\<close>

theorem step_sets_every_group:
  assumes "step val_loss s = Inr (s', r)"
  shows "list_all (\<lambda>g. g ''lr'' = Some r) (param_groups (optimizer s'))
       \<and> length (param_groups (optimizer s')) = length (param_groups (optimizer s))
       \<and> (param_groups (optimizer s') \<noteq> [] \<longrightarrow>
            get_lr s' = Inr (Some r)
            \<and> get_lr s' = Inr (hd (param_groups (optimizer s')) ''lr''))
       \<and> get_last_lr s' = Inr (replicate (length (param_groups (optimizer s'))) r)
       \<and> (optimizer t = optimizer s' \<longrightarrow> get_lr t = get_lr s')
       \<and> (param_groups (optimizer s') = g # gs \<longrightarrow>
            get_lr (s'\<lparr>optimizer := \<lparr>param_groups = g(''lr'' \<mapsto> x) # gs\<rparr>\<rparr>) = Inr (Some x)
            \<and> lr (s'\<lparr>optimizer := \<lparr>param_groups = g(''lr'' \<mapsto> x) # gs\<rparr>\<rparr>) = r
            \<and> get_last_lr (s'\<lparr>optimizer := \<lparr>param_groups = g(''lr'' \<mapsto> x) # gs\<rparr>\<rparr>) =
                Inr (replicate (length (g # gs)) r))"
proof -
  note f = step_fields [OF assms]
  have all: "list_all (\<lambda>g. g ''lr'' = Some r) (param_groups (optimizer s'))"
    by (simp add: f(2) list_all_iff)
  have len: "length (param_groups (optimizer s')) = length (param_groups (optimizer s))"
    by (simp add: f(2))
  have first: "get_lr s' = Inr (Some r) \<and> get_lr s' = Inr (hd (param_groups (optimizer s')) ''lr'')"
    if "param_groups (optimizer s') \<noteq> []"
    using that all by (cases "param_groups (optimizer s')") (simp_all add: get_lr_def)
  have last: "get_last_lr s' = Inr (replicate (length (param_groups (optimizer s'))) r)"
    by (simp add: get_last_lr_def f(4) len)
  have same: "get_lr t = get_lr s'" if "optimizer t = optimizer s'"
    using that by (simp add: get_lr_def)
  have outside: "get_lr (s'\<lparr>optimizer := \<lparr>param_groups = g(''lr'' \<mapsto> x) # gs\<rparr>\<rparr>) = Inr (Some x)
      \<and> lr (s'\<lparr>optimizer := \<lparr>param_groups = g(''lr'' \<mapsto> x) # gs\<rparr>\<rparr>) = r
      \<and> get_last_lr (s'\<lparr>optimizer := \<lparr>param_groups = g(''lr'' \<mapsto> x) # gs\<rparr>\<rparr>) =
          Inr (replicate (length (g # gs)) r)"
    if "param_groups (optimizer s') = g # gs"
    using that last f(1) by (simp add: get_lr_def get_last_lr_def)
  from all len first last same outside show ?thesis
    by blast
qed

text \<open>
  The witness: the call at step counter 2 of the example returns 1e-3; an object with
  another \<^verbatim>\<open>lr\<close> field and the same optimizer reads 1e-3 all the same, and after 7 is
  written to the first group \<^verbatim>\<open>get_lr()\<close> returns 7.
\<close>

theorem step_sets_every_group_witness:
  "step None (example_at 2) = Inr (example_stepped, 1 / 1000)
   \<and> param_groups (optimizer example_stepped) =
       [[''lr'' \<mapsto> 1 / 1000], [''momentum'' \<mapsto> 9 / 10, ''lr'' \<mapsto> 1 / 1000]]
   \<and> list_all (\<lambda>g. g ''lr'' = Some (1 / 1000)) (param_groups (optimizer example_stepped))
   \<and> length (param_groups (optimizer example_stepped)) = 2
   \<and> get_lr example_stepped = Inr (Some (1 / 1000))
   \<and> get_last_lr example_stepped = Inr [1 / 1000, 1 / 1000]
   \<and> get_lr (example_stepped\<lparr>lr := 5\<rparr>) = Inr (Some (1 / 1000))
   \<and> get_lr (example_stepped\<lparr>optimizer :=
        \<lparr>param_groups = [[''lr'' \<mapsto> 7], [''momentum'' \<mapsto> 9 / 10, ''lr'' \<mapsto> 1 / 1000]]\<rparr>\<rparr>)
       = Inr (Some 7)
   \<and> lr (example_stepped\<lparr>optimizer :=
        \<lparr>param_groups = [[''lr'' \<mapsto> 7], [''momentum'' \<mapsto> 9 / 10, ''lr'' \<mapsto> 1 / 1000]]\<rparr>\<rparr>)
       = 1 / 1000"
proof -
  have h: "step None (example_at 2) = Inr (example_stepped, 1 / 1000)"
    by (rule step_example)
  have gs: "param_groups (optimizer example_stepped) =
      [[''lr'' \<mapsto> 1 / 1000], [''momentum'' \<mapsto> 9 / 10, ''lr'' \<mapsto> 1 / 1000]]"
    by (simp add: example_stepped_def set_lr_def example_optimizer_def)
  have two: "length (param_groups (optimizer (example_at 2))) = 2"
    by (simp add: example_at_def example_scheduler_def example_optimizer_def)
  have opt: "optimizer (example_stepped\<lparr>lr := 5\<rparr>) = optimizer example_stepped"
    by simp
  from step_sets_every_group [OF h, of "example_stepped\<lparr>lr := 5\<rparr>"
      "[''lr'' \<mapsto> 1 / 1000]" "[[''momentum'' \<mapsto> 9 / 10, ''lr'' \<mapsto> 1 / 1000]]" 7]
    h gs two opt
  show ?thesis
    by (simp add: eval_nat_numeral)
qed

section \<open>What a call can raise\<close>

text \<open>
  C7, in the binary64 reading. Take an object the constructor returned and let \<open>n\<close> calls
  to \<^verbatim>\<open>step()\<close> have returned, leaving the object \<open>s\<close>. The stage decision on \<open>s\<close>
  gives one of the four tags and an offset that is not negative, so the next call does not
  reach \<^verbatim>\<open>raise ValueError("Undefined stage")\<close>. The call either raises
  \<^verbatim>\<open>OverflowError\<close>, in the warmup or the decay stage, and then it leaves the object as
  it was; or it returns a rate \<open>r\<close>, and then it has stored \<open>r\<close> in \<^verbatim>\<open>lr\<close>, written
  \<open>r\<close> to every parameter group, increased \<^verbatim>\<open>update_steps\<close> by one and assigned the
  snapshot \<^verbatim>\<open>_last_lr\<close>.
\<close>

theorem step64_raises_overflow_only:
  assumes "init64 opt a = Inr s0" and "run64 n s0 = Inr (s, rs)"
  shows "(fst (decide_stage s) = WARMUP \<or> fst (decide_stage s) = HOLD
            \<or> fst (decide_stage s) = DECAY \<or> fst (decide_stage s) = FINAL)
       \<and> 0 \<le> snd (decide_stage s)
       \<and> step64 val_loss s \<noteq> Inl (ValueError, t)
       \<and> (step64 val_loss s = Inl (OverflowError, s)
            \<and> (fst (decide_stage s) = WARMUP \<or> fst (decide_stage s) = DECAY)
          \<or> (\<exists>s' r. step64 val_loss s = Inr (s', r)
                 \<and> lr s' = r
                 \<and> param_groups (optimizer s') =
                     map (\<lambda>g. g(''lr'' \<mapsto> r)) (param_groups (optimizer s))
                 \<and> update_steps s' = update_steps s + 1
                 \<and> last_lr s' = Some (replicate (length (param_groups (optimizer s))) r)))"
proof -
  have "update_steps s = int n"
    using run64_keep(1) [OF assms(2)] init64_fresh(1) [OF assms(1)] by simp
  then have off: "0 \<le> snd (decide_stage s)"
    by (simp add: decide_stage_offset)
  have tag: "fst (decide_stage s) = 0 \<or> fst (decide_stage s) = 1
      \<or> fst (decide_stage s) = 2 \<or> fst (decide_stage s) = 3"
    using decide_stage_tag [of s] by simp
  have nv: "step64 val_loss s \<noteq> Inl (ValueError, t)"
    using step64_error(1) [of val_loss s ValueError t] by auto
  show ?thesis
  proof (cases "step64 val_loss s")
    case (Inl raised)
    obtain e t' where raised: "raised = (e, t')"
      by (cases raised)
    from step64_error [OF Inl [unfolded raised]] Inl raised tag off nv show ?thesis
      by simp
  next
    case (Inr p)
    obtain s' r where p: "p = (s', r)"
      by (cases p)
    note f = step64_fields [OF Inr [unfolded p]]
    from Inr p f(1) f(2) f(3) f(4) tag off nv show ?thesis
      by auto
  qed
qed

theorem step64_raises_overflow_only_witness:
  "init64 example_optimizer64 example_args = Inr example64
   \<and> (\<exists>s. run64 6 example64 =
            Inr (s, [Fin 0, Fin (d_peak / 2), Fin d_peak, Fin d_peak, Fin d_rate1, Fin d_rate])
        \<and> fst (decide_stage s) = FINAL
        \<and> 0 \<le> snd (decide_stage s)
        \<and> step64 None s \<noteq> Inl (ValueError, s)
        \<and> (\<exists>s' r. step64 None s = Inr (s', r)
               \<and> lr s' = r
               \<and> param_groups (optimizer s') =
                   map (\<lambda>g. g(''lr'' \<mapsto> r)) (param_groups (optimizer s))
               \<and> update_steps s' = update_steps s + 1
               \<and> last_lr s' = Some (replicate (length (param_groups (optimizer s))) r)))"
proof -
  obtain s where s:
    "run64 6 example64 =
       Inr (s, [Fin 0, Fin (d_peak / 2), Fin d_peak, Fin d_peak, Fin d_rate1, Fin d_rate])"
    using example_run64 by blast
  note k = run64_keep [OF s]
  have tag: "decide_stage s = (FINAL, 1)"
    using k by (simp add: decide_stage_def example64_def)
  from step64_raises_overflow_only [OF init64_example s, of None s] tag s
  show ?thesis
    by (auto simp: init64_example)
qed

text \<open>
  C7, as the specification states it. The object of
  \<^verbatim>\<open>TriStageLRScheduler(opt, peak_lr=1.0, final_lr_scale=sys.float_info.max, decay_steps=11)\<close>
  is at the bound of its decay stage after eleven calls. There
  \<^verbatim>\<open>-self.decay_factor * steps_in_stage\<close> is the double \<^verbatim>\<open>709.7827128933841\<close>, one
  unit in the last place above the logarithm of the largest double, and \<^verbatim>\<open>math.exp\<close>
  raises: twelve calls do not all return.
\<close>

theorem step_overflow_at_bound:
  "init64 example_optimizer64 overflow_args = Inr overflow64
   \<and> decide_stage (overflow64\<lparr>update_steps := 11\<rparr>) = (DECAY, 11)
   \<and> step64 None (overflow64\<lparr>update_steps := 11\<rparr>)
       = Inl (OverflowError, overflow64\<lparr>update_steps := 11\<rparr>)
   \<and> rates64 example_optimizer64 overflow_args 12 = Inl OverflowError"
proof -
  let ?t = "overflow64\<lparr>update_steps := 11\<rparr>"
  have d: "decide_stage ?t = (DECAY, 11)"
    by (simp add: decide_stage_def overflow64_def)
  have "stage_lr64 ?t 2 11 = stage_lr64 overflow64 2 11"
    by (simp add: stage_lr64_cong [of ?t overflow64])
  with d have "stage_lr64 ?t (fst (decide_stage ?t)) (snd (decide_stage ?t)) = Inl OverflowError"
    by (simp add: overflow_bound_rate)
  then have "step64 None ?t = Inl (OverflowError, ?t)"
    by (rule step64_raise)
  with d show ?thesis
    by (simp add: init64_overflow overflow_rates64)
qed

section \<open>The loss argument\<close>

text \<open>
  C8. \<^verbatim>\<open>step()\<close> does not use \<^verbatim>\<open>val_loss\<close>: from the same object, a call with any
  loss and a call with any other loss, or with none, give the same result, that is the
  same rate and the same object after the call, with its \<^verbatim>\<open>update_steps\<close>,
  \<^verbatim>\<open>lr\<close>, \<^verbatim>\<open>_last_lr\<close> and the rates of the optimizer's parameter groups.
\<close>

theorem step_ignores_loss:
  "step val_loss s = step val_loss' s
   \<and> step val_loss s = step None s
   \<and> (\<exists>s' r. step val_loss s = Inr (s', r) \<and> step val_loss' s = Inr (s', r))"
proof -
  have eq: "step l s = step None s" for l
    by (simp add: step_def)
  obtain s' r where "step None s = Inr (s', r)"
    using step_total by blast
  with eq [of val_loss] eq [of val_loss'] show ?thesis
    by simp
qed

section \<open>The step counter\<close>



section \<open>The snapshot before the first call\<close>

text \<open>
  C10. The constructor does not assign \<^verbatim>\<open>_last_lr\<close>, so \<^verbatim>\<open>get_last_lr()\<close> on a fresh
  object raises \<^verbatim>\<open>AttributeError\<close>. After \<open>n\<close> calls followed by one more call, so after
  at least one call, it returns a list, and the list is what the comprehension of that
  last call read from the parameter groups as the call left them.
\<close>

theorem get_last_lr_before_and_after:
  assumes "init opt a = Inr s0"
    and "run n s0 = Inr (s, rs)"
    and "step val_loss s = Inr (s', r)"
  shows "get_last_lr s0 = Inl AttributeError
       \<and> (\<exists>snapshot. get_last_lr s' = Inr snapshot
             \<and> read_lrs (param_groups (optimizer s')) = Inr snapshot
             \<and> snapshot = replicate (length (param_groups (optimizer s'))) r)"
proof -
  have fresh: "get_last_lr s0 = Inl AttributeError"
    by (simp add: get_last_lr_def init_fresh(2) [OF assms(1)])
  note f = step_fields [OF assms(3)]
  have "get_last_lr s' = Inr (replicate (length (param_groups (optimizer s'))) r)"
    by (simp add: get_last_lr_def f(4) f(2))
  moreover have "read_lrs (param_groups (optimizer s')) =
      Inr (replicate (length (param_groups (optimizer s'))) r)"
    by (simp add: f(2) read_lrs_set)
  ultimately show ?thesis
    using fresh by simp
qed

theorem get_last_lr_before_and_after_witness:
  "init example_optimizer example_args = Inr example_scheduler
   \<and> run 0 example_scheduler = Inr (example_scheduler, [])
   \<and> step None example_scheduler =
       Inr (example_scheduler
              \<lparr> optimizer := set_lr example_optimizer 0,
                update_steps := 1,
                last_lr := Some [0, 0] \<rparr>, 0)
   \<and> get_last_lr example_scheduler = Inl AttributeError
   \<and> get_last_lr (example_scheduler
                    \<lparr> optimizer := set_lr example_optimizer 0,
                      update_steps := 1,
                      last_lr := Some [0, 0] \<rparr>) = Inr [0, 0]"
proof -
  have r0: "run 0 example_scheduler = Inr (example_scheduler, [])"
    by simp
  have st: "step None example_scheduler =
      Inr (example_scheduler
             \<lparr> optimizer := set_lr example_optimizer 0,
               update_steps := 1,
               last_lr := Some [0, 0] \<rparr>, 0)"
    by (simp add: step_def decide_stage_def stage_lr_def set_lr_def
        example_scheduler_def example_optimizer_def)
  from get_last_lr_before_and_after [OF init_example r0 st] init_example r0 st
  show ?thesis
    by (simp add: set_lr_def example_optimizer_def)
qed

end
